theory Spec2Isabelle
  imports Main "HOL-Library.Word" "HOL-Library.Sublist"
begin

section \<open>JavaScript values\<close>

text \<open>
  A JavaScript string is a sequence of UTF-16 code units. The regular expressions of
  \<^verbatim>\<open>server.js\<close> carry no \<^verbatim>\<open>u\<close> flag, so they too work on code units.
\<close>

type_synonym jschar = "16 word"
type_synonym jsstring = "jschar list"

text \<open>An ASCII literal as a JavaScript string.\<close>

definition str :: "string \<Rightarrow> jsstring" where
  "str s = map of_char s"

text \<open>
  The values that reach the handler come out of \<^verbatim>\<open>JSON.parse\<close> (the request body)
  or out of the provider's client (the completion), plus \<^verbatim>\<open>undefined\<close> for a
  property that is not there. The code observes a number only through \<^verbatim>\<open>!x\<close> and
  \<^verbatim>\<open>typeof x\<close>, so a number is kept as its class: NaN, a zero (of either sign), or
  any other value, with the value's digits left out.
\<close>

datatype jsnumber = NaN | Zero | NonZero

datatype jsvalue =
    JUndefined
  | JNull
  | JBool bool
  | JNum jsnumber
  | JStr jsstring
  | JArr "jsvalue list"
  | JObj "(jsstring \<times> jsvalue) list"

text \<open>\<^verbatim>\<open>ToBoolean\<close>: what \<^verbatim>\<open>!x\<close>, \<^verbatim>\<open>x ? a : b\<close>, \<^verbatim>\<open>if (x)\<close> and \<^verbatim>\<open>x || y\<close> test.\<close>

fun truthy :: "jsvalue \<Rightarrow> bool" where
  "truthy JUndefined = False"
| "truthy JNull = False"
| "truthy (JBool b) = b"
| "truthy (JNum n) = (n = NonZero)"
| "truthy (JStr s) = (s \<noteq> [])"
| "truthy (JArr _) = True"
| "truthy (JObj _) = True"

section \<open>Strings: whitespace, \<^verbatim>\<open>includes\<close>, \<^verbatim>\<open>trim\<close>\<close>

text \<open>
  The line terminators of ECMAScript: LF, CR, LINE SEPARATOR, PARAGRAPH SEPARATOR.
  The \<^verbatim>\<open>.\<close> of a regular expression without the \<^verbatim>\<open>s\<close> flag matches every code
  unit but these.
\<close>

definition isLineTerminator :: "jschar \<Rightarrow> bool" where
  "isLineTerminator c \<longleftrightarrow> c = 0x0A \<or> c = 0x0D \<or> c = 0x2028 \<or> c = 0x2029"

text \<open>
  What \<^verbatim>\<open>\s\<close> matches and what \<^verbatim>\<open>String.prototype.trim\<close> strips: the white space
  code points (TAB, VT, FF, SP, NBSP, ZWNBSP and the category Zs) and the line terminators.
\<close>

definition isWhiteSpace :: "jschar \<Rightarrow> bool" where
  "isWhiteSpace c \<longleftrightarrow>
     c = 0x09 \<or> c = 0x0B \<or> c = 0x0C \<or> c = 0x20 \<or> c = 0xA0 \<or> c = 0xFEFF \<or>
     c = 0x1680 \<or> (0x2000 \<le> c \<and> c \<le> 0x200A) \<or> c = 0x202F \<or> c = 0x205F \<or>
     c = 0x3000 \<or> isLineTerminator c"

definition trim :: "jsstring \<Rightarrow> jsstring" where
  "trim s = rev (dropWhile isWhiteSpace (rev (dropWhile isWhiteSpace s)))"

text \<open>\<^verbatim>\<open>s.includes(pat)\<close>: \<open>pat\<close> occurs in \<open>s\<close> as a run of consecutive code units.\<close>

fun includesStr :: "jsstring \<Rightarrow> jsstring \<Rightarrow> bool" where
  "includesStr [] pat = (pat = [])"
| "includesStr (c # cs) pat = (prefix pat (c # cs) \<or> includesStr cs pat)"

section \<open>Regular expressions\<close>

text \<open>
  The three regular expressions of the file are sequences of single-character terms, each
  taken once, lazily any number of times (\<^verbatim>\<open>x*?\<close>) or greedily at least once
  (\<^verbatim>\<open>x+\<close>). \<open>GreedyStar\<close> is what is left of \<^verbatim>\<open>x+\<close> after its first character.
\<close>

datatype charset =
    Lit jschar           \<comment> \<open>a pattern character\<close>
  | Dot                  \<comment> \<open>\<^verbatim>\<open>.\<close>\<close>
  | Cls "jschar list"    \<comment> \<open>\<^verbatim>\<open>[...]\<close> of literal characters\<close>
  | Space                \<comment> \<open>\<^verbatim>\<open>\s\<close>\<close>

datatype node = One charset | LazyStar charset | Plus charset | GreedyStar charset

type_synonym regex = "node list"

text \<open>
  \<^verbatim>\<open>Canonicalize\<close> under the flag \<^verbatim>\<open>i\<close> without \<^verbatim>\<open>u\<close>: the upper-case form of the
  code unit, unless that form is more than one code unit, or is ASCII when the code unit is
  not. The pattern characters of this file are ASCII, and a code unit from 128 on keeps a
  canonical form from 128 on, so it never equals the canonical form of a pattern character.
  For deciding a match against an ASCII pattern character it is therefore enough to
  upper-case the letters a to z.
\<close>

definition canonicalize :: "jschar \<Rightarrow> jschar" where
  "canonicalize c = (if 0x61 \<le> c \<and> c \<le> 0x7A then c - 0x20 else c)"

definition sameChar :: "bool \<Rightarrow> jschar \<Rightarrow> jschar \<Rightarrow> bool" where
  "sameChar ignoreCase p c \<longleftrightarrow>
     (if ignoreCase then canonicalize c = canonicalize p else c = p)"

fun charMatches :: "bool \<Rightarrow> charset \<Rightarrow> jschar \<Rightarrow> bool" where
  "charMatches ignoreCase (Lit p) c = sameChar ignoreCase p c"
| "charMatches ignoreCase Dot c = (\<not> isLineTerminator c)"
| "charMatches ignoreCase (Cls ps) c = list_ex (\<lambda>p. sameChar ignoreCase p c) ps"
| "charMatches ignoreCase Space c = isWhiteSpace c"

text \<open>
  The backtracking matcher of ECMAScript, anchored at the start of \<open>s\<close>: the number of
  code units of the first match the backtracking finds, or \<open>None\<close>. A lazy star tries
  the rest of the pattern before it takes one more character; a greedy one takes the
  character first and falls back to the rest of the pattern.
\<close>

fun matchRe :: "bool \<Rightarrow> regex \<Rightarrow> jsstring \<Rightarrow> nat option" where
  "matchRe ic [] s = Some 0"
| "matchRe ic (One cs # r) [] = None"
| "matchRe ic (One cs # r) (c # rest) =
     (if charMatches ic cs c then map_option Suc (matchRe ic r rest) else None)"
| "matchRe ic (LazyStar cs # r) [] = matchRe ic r []"
| "matchRe ic (LazyStar cs # r) (c # rest) =
     (case matchRe ic r (c # rest) of
        Some n \<Rightarrow> Some n
      | None \<Rightarrow>
          if charMatches ic cs c then map_option Suc (matchRe ic (LazyStar cs # r) rest)
          else None)"
| "matchRe ic (Plus cs # r) [] = None"
| "matchRe ic (Plus cs # r) (c # rest) =
     (if charMatches ic cs c then map_option Suc (matchRe ic (GreedyStar cs # r) rest)
      else None)"
| "matchRe ic (GreedyStar cs # r) [] = matchRe ic r []"
| "matchRe ic (GreedyStar cs # r) (c # rest) =
     (if charMatches ic cs c then
        (case matchRe ic (GreedyStar cs # r) rest of
           Some n \<Rightarrow> Some (Suc n)
         | None \<Rightarrow> matchRe ic r (c # rest))
      else matchRe ic r (c # rest))"

text \<open>
  \<^verbatim>\<open>s.replace(re, rep)\<close> for a regular expression with the flag \<^verbatim>\<open>g\<close> and a
  replacement without \<^verbatim>\<open>$\<close>: at each position, left to right, a match is replaced
  and the scan goes on behind it; where nothing matches the code unit is kept. After an
  empty match the scan moves on by one code unit.
\<close>

fun replaceG :: "bool \<Rightarrow> regex \<Rightarrow> jsstring \<Rightarrow> jsstring \<Rightarrow> jsstring" where
  "replaceG ic re rep [] = (case matchRe ic re [] of Some n \<Rightarrow> rep | None \<Rightarrow> [])"
| "replaceG ic re rep (c # rest) =
     (case matchRe ic re (c # rest) of
        None \<Rightarrow> c # replaceG ic re rep rest
      | Some n \<Rightarrow>
          if n = 0 then rep @ c # replaceG ic re rep rest
          else rep @ replaceG ic re rep (drop n (c # rest)))"

text \<open>
  \<^verbatim>\<open>s.split(re)\<close>, the loop of \<^verbatim>\<open>RegExp.prototype[Symbol.split]\<close>: \<open>cur\<close> is the
  piece from \<^verbatim>\<open>p\<close> to \<^verbatim>\<open>q\<close>, the last argument the string from \<^verbatim>\<open>q\<close> on. A match
  at \<^verbatim>\<open>q\<close> that ends at \<^verbatim>\<open>p\<close> (an empty match, with an empty piece) moves
  \<^verbatim>\<open>q\<close> on by one; any other match closes the piece and starts the next behind the
  match. The end of the string closes the last piece.
\<close>

function splitLoop :: "bool \<Rightarrow> regex \<Rightarrow> jsstring \<Rightarrow> jsstring \<Rightarrow> jsstring list" where
  "splitLoop ic re cur [] = [cur]"
| "splitLoop ic re cur (c # rest) =
     (case matchRe ic re (c # rest) of
        None \<Rightarrow> splitLoop ic re (cur @ [c]) rest
      | Some n \<Rightarrow>
          if n = 0 \<and> cur = [] then splitLoop ic re (cur @ [c]) rest
          else cur # splitLoop ic re [] (drop n (c # rest)))"
  by pat_completeness auto
termination
  by (relation "measure (\<lambda>(ic, re, cur, s). 2 * length s + (if cur = [] then 0 else 1))")
    auto

definition splitRe :: "bool \<Rightarrow> regex \<Rightarrow> jsstring \<Rightarrow> jsstring list" where
  "splitRe ic re s =
     (if s = [] then (case matchRe ic re [] of Some n \<Rightarrow> [] | None \<Rightarrow> [[]])
      else splitLoop ic re [] s)"

section \<open>The sanitizer\<close>

text \<open>
  \<^verbatim>\<open>
  function sanitize(text = "") {
    return text
      .replace(/<script.*?>.*?<\/script>/gi, "")
      .replace(/[<>]/g, "")
      .trim();
  }
  \<close>
  The function is the same in both revisions of the file.
\<close>

definition scriptRe :: regex where
  "scriptRe =
     map (\<lambda>c. One (Lit c)) (str ''<script'') @
     [LazyStar Dot, One (Lit (of_char CHR ''>'')), LazyStar Dot] @
     map (\<lambda>c. One (Lit c)) (str ''</script>'')"

definition angleRe :: regex where
  "angleRe = [One (Cls (str ''<>''))]"

definition sanitize :: "jsstring \<Rightarrow> jsstring" where
  "sanitize text = trim (replaceG False angleRe [] (replaceG True scriptRe [] text))"

section \<open>The response quality enforcer\<close>

text \<open>
  \<^verbatim>\<open>
  function enforceMarkdownStructure(text) {
    if (!text) return "";
    const structured =
      text.includes("##") || text.includes("- ") || text.includes("**");
    if (structured) return text;
    const lines = text.split(/[.?!]\s+/).filter(Boolean);
    let output = "## (U+1F4CC) Response\n\n";
    for (const line of lines) {
      output += `- ${line.trim()}\n`;
    }
    return output;
  }
  \<close>
  on a string. The pushpin of the heading is U+1F4CC, two code units.
\<close>

definition sentenceRe :: regex where
  "sentenceRe = [One (Cls (str ''.?!'')), Plus Space]"

definition heading :: jsstring where
  "heading = str ''## '' @ [0xD83D, 0xDCCC] @ str '' Response'' @ [0x0A, 0x0A]"

definition bullet :: "jsstring \<Rightarrow> jsstring" where
  "bullet line = str ''- '' @ trim line @ [0x0A]"

definition enforceMarkdownStructure :: "jsstring \<Rightarrow> jsstring" where
  "enforceMarkdownStructure text =
     (if text = [] then []
      else if includesStr text (str ''##'') \<or> includesStr text (str ''- '') \<or>
              includesStr text (str ''**'')
      then text
      else foldl (\<lambda>output line. output @ bullet line) heading
             (filter (\<lambda>line. line \<noteq> []) (splitRe False sentenceRe text)))"

section \<open>The memory buffer\<close>

text \<open>
  \<^verbatim>\<open>const chatMemory = []; const MAX_MEMORY_MESSAGES = 6;\<close>
  The buffer is the one piece of shared state; every function that touches it takes it
  and returns it.
\<close>

record turn =
  role :: jsstring
  content :: jsvalue

type_synonym memory = "turn list"

definition MAX_MEMORY_MESSAGES :: nat where
  "MAX_MEMORY_MESSAGES = 6"

text \<open>
  \<^verbatim>\<open>
  function pushToMemory(role, content) {
    chatMemory.push({ role, content });
    if (chatMemory.length > MAX_MEMORY_MESSAGES) {
      chatMemory.shift();
    }
  }
  \<close>
  \<^verbatim>\<open>shift\<close> removes the element at index 0; \<open>tl\<close> is that on a non-empty list, and
  the list is non-empty here because its length exceeds 6.
\<close>

definition pushToMemory :: "jsstring \<Rightarrow> jsvalue \<Rightarrow> memory \<Rightarrow> memory" where
  "pushToMemory r c chatMemory =
     (let pushed = chatMemory @ [\<lparr>role = r, content = c\<rparr>]
      in if length pushed > MAX_MEMORY_MESSAGES then tl pushed else pushed)"

text \<open>
  The earlier revision of the file has the same function under another name:
  \<^verbatim>\<open>
  const MAX_MEMORY = 6;
  function pushMemory(role, content) {
    chatMemory.push({ role, content });
    if (chatMemory.length > MAX_MEMORY) chatMemory.shift();
  }
  \<close>
\<close>

definition MAX_MEMORY :: nat where
  "MAX_MEMORY = 6"

definition pushMemory :: "jsstring \<Rightarrow> jsvalue \<Rightarrow> memory \<Rightarrow> memory" where
  "pushMemory r c chatMemory =
     (let pushed = chatMemory @ [\<lparr>role = r, content = c\<rparr>]
      in if length pushed > MAX_MEMORY then tl pushed else pushed)"

text \<open>A sequence of calls, run from a given buffer, oldest call first.\<close>

fun pushAll :: "(jsstring \<times> jsvalue) list \<Rightarrow> memory \<Rightarrow> memory" where
  "pushAll [] m = m"
| "pushAll ((r, c) # calls) m = pushAll calls (pushToMemory r c m)"

fun pushAllMemory :: "(jsstring \<times> jsvalue) list \<Rightarrow> memory \<Rightarrow> memory" where
  "pushAllMemory [] m = m"
| "pushAllMemory ((r, c) # calls) m = pushAllMemory calls (pushMemory r c m)"

section \<open>The chat endpoint\<close>

text \<open>
  \<^verbatim>\<open>x?.k\<close> for the property names the handler reads (\<^verbatim>\<open>message\<close>,
  \<^verbatim>\<open>system\<close>, \<^verbatim>\<open>choices\<close>, \<^verbatim>\<open>content\<close>): \<^verbatim>\<open>undefined\<close> on
  \<^verbatim>\<open>undefined\<close> and \<^verbatim>\<open>null\<close>, the property's value on an object that has it,
  and \<^verbatim>\<open>undefined\<close> on every other value, none of whose prototypes has a property
  of these names.
\<close>

fun optProp :: "jsvalue \<Rightarrow> jsstring \<Rightarrow> jsvalue" where
  "optProp (JObj ps) k = (case map_of ps k of Some v \<Rightarrow> v | None \<Rightarrow> JUndefined)"
| "optProp _ k = JUndefined"

text \<open>
  \<^verbatim>\<open>x?.[0]\<close>: the first element of an array, the first code unit of a string (as a
  string), the property \<^verbatim>\<open>"0"\<close> of an object; \<^verbatim>\<open>undefined\<close> otherwise.
\<close>

fun optIndex0 :: "jsvalue \<Rightarrow> jsvalue" where
  "optIndex0 (JArr []) = JUndefined"
| "optIndex0 (JArr (x # xs)) = x"
| "optIndex0 (JStr []) = JUndefined"
| "optIndex0 (JStr (c # cs)) = JStr [c]"
| "optIndex0 (JObj ps) = (case map_of ps (str ''0'') of Some v \<Rightarrow> v | None \<Rightarrow> JUndefined)"
| "optIndex0 _ = JUndefined"

fun isString :: "jsvalue \<Rightarrow> bool" where
  "isString (JStr s) = True"
| "isString _ = False"

datatype jserror = TypeError | ProviderError

text \<open>
  \<^verbatim>\<open>sanitize\<close> on any value: the default parameter replaces \<^verbatim>\<open>undefined\<close> by the
  empty string; a value that is not a string has no method \<^verbatim>\<open>replace\<close>, and the call
  throws a \<^verbatim>\<open>TypeError\<close>.
\<close>

fun sanitizeValue :: "jsvalue \<Rightarrow> jserror + jsvalue" where
  "sanitizeValue JUndefined = Inr (JStr (sanitize []))"
| "sanitizeValue (JStr s) = Inr (JStr (sanitize s))"
| "sanitizeValue _ = Inl TypeError"

text \<open>
  \<^verbatim>\<open>enforceMarkdownStructure\<close> on any value: a falsy value gives the empty string; an
  array has \<^verbatim>\<open>includes\<close> (membership) but no \<^verbatim>\<open>split\<close>; every other value that
  is not a string has no method \<^verbatim>\<open>includes\<close>.
\<close>

definition enforceValue :: "jsvalue \<Rightarrow> jserror + jsvalue" where
  "enforceValue text =
     (if \<not> truthy text then Inr (JStr [])
      else case text of
        JStr s \<Rightarrow> Inr (JStr (enforceMarkdownStructure s))
      | JArr xs \<Rightarrow>
          if List.member xs (JStr (str ''##'')) \<or> List.member xs (JStr (str ''- '')) \<or>
             List.member xs (JStr (str ''**''))
          then Inr text else Inl TypeError
      | _ \<Rightarrow> Inl TypeError)"

record response =
  status :: nat
  reply :: jsvalue

text \<open>The three fixed replies of the handler, as the literals of the source.\<close>

definition invalidRequestReply :: jsstring where
  "invalidRequestReply =
     str ''## '' @ [0x26A0, 0xFE0F] @ str '' Invalid Request'' @ [0x0A] @
     str ''- Message missing or invalid''"

definition emptyResponseReply :: jsstring where
  "emptyResponseReply =
     str ''## '' @ [0x26A0, 0xFE0F] @ str '' AI Error'' @ [0x0A] @
     str ''- Empty response received''"

definition serverErrorReply :: jsstring where
  "serverErrorReply =
     [0x0A] @ str ''## '' @ [0x274C] @ str '' Server Error'' @ [0x0A] @
     str ''- AI backend temporarily unavailable'' @ [0x0A] @
     str ''- Please click **Retry**'' @ [0x0A] @ str ''      ''"

text \<open>
  The provider is outside the program: \<^verbatim>\<open>groq.chat.completions.create\<close> is a
  parameter of the model, a function from the message list it is called with (the other
  arguments are constants) to the completion it resolves to, or to the error it throws or
  rejects with.
\<close>

type_synonym provider = "turn list \<Rightarrow> jserror + jsvalue"

text \<open>
  \<^verbatim>\<open>completion?.choices?.[0]?.message?.content || "## ... AI Error\n- Empty response received"\<close>
\<close>

definition firstChoiceContent :: "jsvalue \<Rightarrow> jsvalue" where
  "firstChoiceContent completion =
     optProp (optProp (optIndex0 (optProp completion (str ''choices'')))
       (str ''message'')) (str ''content'')"

definition extractReply :: "jsvalue \<Rightarrow> jsvalue" where
  "extractReply completion =
     (let c = firstChoiceContent completion
      in if truthy c then c else JStr emptyResponseReply)"

text \<open>
  \<^verbatim>\<open>
  const messages = [];
  if (systemPrompt) { messages.push({ role: "system", content: systemPrompt }); }
  messages.push(...chatMemory);
  \<close>
\<close>

definition buildMessages :: "jsvalue \<Rightarrow> memory \<Rightarrow> turn list" where
  "buildMessages systemPrompt chatMemory =
     (if truthy systemPrompt then [\<lparr>role = str ''system'', content = systemPrompt\<rparr>]
      else []) @ chatMemory"

text \<open>\<^verbatim>\<open>systemPromptRaw ? sanitize(systemPromptRaw) : null\<close>\<close>

definition systemPromptOf :: "jsvalue \<Rightarrow> jserror + jsvalue" where
  "systemPromptOf systemPromptRaw =
     (if truthy systemPromptRaw then sanitizeValue systemPromptRaw else Inr JNull)"

text \<open>The turn that a call \<^verbatim>\<open>pushToMemory(role, content)\<close> appends.\<close>

definition mkTurn :: "jsstring \<times> jsvalue \<Rightarrow> turn" where
  "mkTurn p = \<lparr>role = fst p, content = snd p\<rparr>"

text \<open>
  What one request leaves behind: the response, the buffer, and the message lists the
  provider was called with (none or one).
\<close>

record outcome =
  response :: response
  memoryAfter :: memory
  providerCalls :: "turn list list"

text \<open>
  The body of the \<^verbatim>\<open>try\<close> block of \<^verbatim>\<open>app.post("/chat", ...)\<close>, for the request
  body \<open>body\<close> (\<^verbatim>\<open>req.body\<close>), on the buffer \<open>chatMemory\<close>. It gives the buffer
  and the provider calls at the point where the block was left, and the response it
  returned or the error it threw. The request is handled alone: nothing else touches the
  buffer while the provider call is awaited.
\<close>

definition chatTry ::
  "jsvalue \<Rightarrow> provider \<Rightarrow> memory \<Rightarrow> memory \<times> turn list list \<times> (jserror + response)" where
  "chatTry body provider chatMemory =
     (let userMessageRaw = optProp body (str ''message'');
          systemPromptRaw = optProp body (str ''system'')
      in if \<not> truthy userMessageRaw \<or> \<not> isString userMessageRaw
         then (chatMemory, [], Inr \<lparr>status = 400, reply = JStr invalidRequestReply\<rparr>)
         else
           case sanitizeValue userMessageRaw of
             Inl e \<Rightarrow> (chatMemory, [], Inl e)
           | Inr userMessage \<Rightarrow>
           case systemPromptOf systemPromptRaw of
             Inl e \<Rightarrow> (chatMemory, [], Inl e)
           | Inr systemPrompt \<Rightarrow>
           let memory1 = pushToMemory (str ''user'') userMessage chatMemory;
               messages = buildMessages systemPrompt memory1
           in case provider messages of
                Inl e \<Rightarrow> (memory1, [messages], Inl e)
              | Inr completion \<Rightarrow>
              case enforceValue (extractReply completion) of
                Inl e \<Rightarrow> (memory1, [messages], Inl e)
              | Inr aiReply \<Rightarrow>
                  (pushToMemory (str ''assistant'') aiReply memory1, [messages],
                   Inr \<lparr>status = 200, reply = aiReply\<rparr>))"

text \<open>
  The handler: the \<^verbatim>\<open>try\<close> block, and the \<^verbatim>\<open>catch\<close> that answers every error
  with status 500 and the fixed reply.
\<close>

definition handleChat :: "jsvalue \<Rightarrow> provider \<Rightarrow> memory \<Rightarrow> outcome" where
  "handleChat body provider chatMemory =
     (case chatTry body provider chatMemory of
        (m, calls, r) \<Rightarrow>
          \<lparr>response =
             (case r of
                Inr res \<Rightarrow> res
              | Inl e \<Rightarrow> \<lparr>status = 500, reply = JStr serverErrorReply\<rparr>),
           memoryAfter = m,
           providerCalls = calls\<rparr>)"

section \<open>The chat endpoint of the earlier revision\<close>

text \<open>
  The earlier revision of the file (the one with \<^verbatim>\<open>pushMemory\<close>) has the same
  handler with four differences: the body is destructured,
  \<^verbatim>\<open>const { message, system } = req.body;\<close>, which throws a \<^verbatim>\<open>TypeError\<close> inside
  the \<^verbatim>\<open>try\<close> block when the body is \<^verbatim>\<open>undefined\<close> or \<^verbatim>\<open>null\<close>; the fixed
  replies are other literals; the reply is
  \<^verbatim>\<open>completion?.choices?.[0]?.message?.content || "AI failed to respond"\<close>; and the
  reply is pushed and sent as it is, without a structure enforcer.
\<close>

definition invalidRequestReplyEarlier :: jsstring where
  "invalidRequestReplyEarlier = str ''Invalid request''"

definition failedReplyEarlier :: jsstring where
  "failedReplyEarlier = str ''AI failed to respond''"

definition serverErrorReplyEarlier :: jsstring where
  "serverErrorReplyEarlier = str ''Server error. Please retry.''"

definition extractReplyEarlier :: "jsvalue \<Rightarrow> jsvalue" where
  "extractReplyEarlier completion =
     (let c = firstChoiceContent completion
      in if truthy c then c else JStr failedReplyEarlier)"

definition chatTryEarlier ::
  "jsvalue \<Rightarrow> provider \<Rightarrow> memory \<Rightarrow> memory \<times> turn list list \<times> (jserror + response)" where
  "chatTryEarlier body provider chatMemory =
     (if body = JUndefined \<or> body = JNull then (chatMemory, [], Inl TypeError)
      else
        let message = optProp body (str ''message'');
            system = optProp body (str ''system'')
        in if \<not> truthy message \<or> \<not> isString message
           then (chatMemory, [], Inr \<lparr>status = 400, reply = JStr invalidRequestReplyEarlier\<rparr>)
           else
             case sanitizeValue message of
               Inl e \<Rightarrow> (chatMemory, [], Inl e)
             | Inr userMessage \<Rightarrow>
             case systemPromptOf system of
               Inl e \<Rightarrow> (chatMemory, [], Inl e)
             | Inr systemPrompt \<Rightarrow>
             let memory1 = pushMemory (str ''user'') userMessage chatMemory;
                 messages = buildMessages systemPrompt memory1
             in case provider messages of
                  Inl e \<Rightarrow> (memory1, [messages], Inl e)
                | Inr completion \<Rightarrow>
                    let reply = extractReplyEarlier completion
                    in (pushMemory (str ''assistant'') reply memory1, [messages],
                        Inr \<lparr>status = 200, reply = reply\<rparr>))"

definition handleChatEarlier :: "jsvalue \<Rightarrow> provider \<Rightarrow> memory \<Rightarrow> outcome" where
  "handleChatEarlier body provider chatMemory =
     (case chatTryEarlier body provider chatMemory of
        (m, calls, r) \<Rightarrow>
          \<lparr>response =
             (case r of
                Inr res \<Rightarrow> res
              | Inl e \<Rightarrow> \<lparr>status = 500, reply = JStr serverErrorReplyEarlier\<rparr>),
           memoryAfter = m,
           providerCalls = calls\<rparr>)"

section \<open>Script-tag blocks\<close>

text \<open>
  The specification describes the first step of the sanitizer in words: every substring
  matching a script-tag block, case-insensitive and non-greedy, is removed.
  \<open>isScriptBlock\<close> is a script-tag block in those words: \<^verbatim>\<open><script\<close> in any case,
  anything up to a \<^verbatim>\<open>>\<close>, anything again, and \<^verbatim>\<open></script>\<close> in any case.
\<close>

definition sameText :: "jsstring \<Rightarrow> jsstring \<Rightarrow> bool" where
  "sameText a b \<longleftrightarrow> map canonicalize a = map canonicalize b"

definition isScriptBlock :: "jsstring \<Rightarrow> bool" where
  "isScriptBlock b \<longleftrightarrow>
     (\<exists>opening attrs body closing.
        b = opening @ attrs @ [0x3E] @ body @ closing \<and>
        sameText opening (str ''<script'') \<and>
        sameText closing (str ''</script>''))"

text \<open>
  The \<^verbatim>\<open>.\<close> of \<^verbatim>\<open>/<script.*?>.*?<\/script>/gi\<close> does not match a line terminator,
  so what the code removes is narrower: a script-tag block that holds no line terminator.
  Non-greedy: where such a block starts, the shortest one is taken
  (\<open>shortestOneLineBlock\<close> is its length). Removal goes left to right and continues
  behind the block removed. \<open>removeOneLineScriptBlocks\<close> is written without the matcher
  and is compared with \<^verbatim>\<open>text.replace(/<script.*?>.*?<\/script>/gi, "")\<close> below.
\<close>

definition isOneLineScriptBlock :: "jsstring \<Rightarrow> bool" where
  "isOneLineScriptBlock b \<longleftrightarrow> isScriptBlock b \<and> (\<forall>x \<in> set b. \<not> isLineTerminator x)"

definition shortestOneLineBlock :: "jsstring \<Rightarrow> nat option" where
  "shortestOneLineBlock s =
     List.find (\<lambda>n. isOneLineScriptBlock (take n s)) [0..<Suc (length s)]"

lemma lineTerminator_canonical: "isLineTerminator x \<Longrightarrow> canonicalize x = x"
  by (auto simp: isLineTerminator_def canonicalize_def)

lemma sameText_tag_no_lineTerminator:
  assumes "sameText a tag" and "\<forall>p \<in> set (map canonicalize tag). \<not> isLineTerminator p"
  shows "\<forall>x \<in> set a. \<not> isLineTerminator x"
proof
  fix x
  assume x: "x \<in> set a"
  show "\<not> isLineTerminator x"
  proof
    assume lt: "isLineTerminator x"
    have "canonicalize x \<in> set (map canonicalize a)" using x by simp
    then have "canonicalize x \<in> set (map canonicalize tag)"
      using assms(1) unfolding sameText_def by (simp only:)
    then have "x \<in> set (map canonicalize tag)"
      using lineTerminator_canonical [OF lt] by (simp only:)
    then show False using assms(2) lt by blast
  qed
qed

lemma openTag_no_lineTerminator:
  "\<forall>p \<in> set (map canonicalize (str ''<script'')). \<not> isLineTerminator p"
  by (simp add: str_def canonicalize_def isLineTerminator_def)

lemma closeTag_no_lineTerminator:
  "\<forall>p \<in> set (map canonicalize (str ''</script>'')). \<not> isLineTerminator p"
  by (simp add: str_def canonicalize_def isLineTerminator_def)

lemma isOneLineScriptBlock_iff:
  "isOneLineScriptBlock b \<longleftrightarrow>
     (\<exists>opening attrs body closing.
        b = opening @ attrs @ [0x3E] @ body @ closing \<and>
        sameText opening (str ''<script'') \<and>
        sameText closing (str ''</script>'') \<and>
        (\<forall>x \<in> set attrs. \<not> isLineTerminator x) \<and>
        (\<forall>x \<in> set body. \<not> isLineTerminator x))"
proof
  assume "isOneLineScriptBlock b"
  then obtain opn attrs body closing where
    b: "b = opn @ attrs @ [0x3E] @ body @ closing"
    and t: "sameText opn (str ''<script'')" "sameText closing (str ''</script>'')"
    and lt: "\<forall>x \<in> set b. \<not> isLineTerminator x"
    unfolding isOneLineScriptBlock_def isScriptBlock_def by blast
  have "\<forall>x \<in> set attrs. \<not> isLineTerminator x" "\<forall>x \<in> set body. \<not> isLineTerminator x"
    using lt b by simp_all
  then show "\<exists>opening attrs body closing.
        b = opening @ attrs @ [0x3E] @ body @ closing \<and>
        sameText opening (str ''<script'') \<and>
        sameText closing (str ''</script>'') \<and>
        (\<forall>x \<in> set attrs. \<not> isLineTerminator x) \<and>
        (\<forall>x \<in> set body. \<not> isLineTerminator x)"
    using b t by blast
next
  assume "\<exists>opening attrs body closing.
        b = opening @ attrs @ [0x3E] @ body @ closing \<and>
        sameText opening (str ''<script'') \<and>
        sameText closing (str ''</script>'') \<and>
        (\<forall>x \<in> set attrs. \<not> isLineTerminator x) \<and>
        (\<forall>x \<in> set body. \<not> isLineTerminator x)"
  then obtain opn attrs body closing where
    b: "b = opn @ attrs @ [0x3E] @ body @ closing"
    and t: "sameText opn (str ''<script'')" "sameText closing (str ''</script>'')"
    and lt: "\<forall>x \<in> set attrs. \<not> isLineTerminator x" "\<forall>x \<in> set body. \<not> isLineTerminator x"
    by blast
  have o: "\<forall>x \<in> set opn. \<not> isLineTerminator x"
    using sameText_tag_no_lineTerminator [OF t(1) openTag_no_lineTerminator] .
  have c: "\<forall>x \<in> set closing. \<not> isLineTerminator x"
    using sameText_tag_no_lineTerminator [OF t(2) closeTag_no_lineTerminator] .
  have g: "\<not> isLineTerminator 0x3E" by (simp add: isLineTerminator_def)
  have "\<forall>x \<in> set b. \<not> isLineTerminator x"
    using o c lt g unfolding b by auto
  moreover have "isScriptBlock b" unfolding isScriptBlock_def using b t by blast
  ultimately show "isOneLineScriptBlock b" by (simp add: isOneLineScriptBlock_def)
qed

lemma sameText_length: "sameText a b \<Longrightarrow> length a = length b"
  unfolding sameText_def by (rule map_eq_imp_length_eq)

lemma isOneLineScriptBlock_nonempty: "isOneLineScriptBlock b \<Longrightarrow> b \<noteq> []"
  by (auto simp: isOneLineScriptBlock_iff)

lemma shortestOneLineBlock_Some:
  "shortestOneLineBlock s = Some n \<longleftrightarrow>
     n \<le> length s \<and> isOneLineScriptBlock (take n s) \<and> (\<forall>k<n. \<not> isOneLineScriptBlock (take k s))"
  unfolding shortestOneLineBlock_def find_Some_iff
  by (auto simp: less_Suc_eq_le nth_upt simp del: upt_Suc)

lemma shortestOneLineBlock_None:
  "shortestOneLineBlock s = None \<longleftrightarrow> (\<forall>k. \<not> isOneLineScriptBlock (take k s))"
proof -
  have "(\<forall>k \<le> length s. \<not> isOneLineScriptBlock (take k s)) \<longleftrightarrow> (\<forall>k. \<not> isOneLineScriptBlock (take k s))"
  proof
    assume a: "\<forall>k \<le> length s. \<not> isOneLineScriptBlock (take k s)"
    show "\<forall>k. \<not> isOneLineScriptBlock (take k s)"
    proof
      fix k
      show "\<not> isOneLineScriptBlock (take k s)"
      proof (cases "k \<le> length s")
        case True
        then show ?thesis using a by simp
      next
        case False
        have "\<not> isOneLineScriptBlock (take (length s) s)" using a by blast
        then show ?thesis using False by simp
      qed
    qed
  qed simp
  then show ?thesis
    unfolding shortestOneLineBlock_def find_None_iff
    by (auto simp: less_Suc_eq_le simp del: upt_Suc)
qed

lemma shortestOneLineBlock_pos: "shortestOneLineBlock s = Some n \<Longrightarrow> 0 < n"
  using isOneLineScriptBlock_nonempty [of "take n s"] by (auto simp: shortestOneLineBlock_Some)

function removeOneLineScriptBlocks :: "jsstring \<Rightarrow> jsstring" where
  "removeOneLineScriptBlocks [] = []"
| "removeOneLineScriptBlocks (c # cs) =
     (case shortestOneLineBlock (c # cs) of
        Some n \<Rightarrow> removeOneLineScriptBlocks (drop n (c # cs))
      | None \<Rightarrow> c # removeOneLineScriptBlocks cs)"
  by pat_completeness auto
termination
  by (relation "measure length") (auto dest: shortestOneLineBlock_pos)

section \<open>The specification's sentence fragments\<close>

text \<open>
  The specification describes the enforcer's splitting in words: the text is split on
  \<^verbatim>\<open>.\<close>, \<^verbatim>\<open>?\<close> or \<^verbatim>\<open>!\<close> followed by whitespace. \<open>fragments\<close> is that
  reading, written without the regular expression: a sentence end followed by whitespace
  closes the fragment, and the whole run of whitespace behind it belongs to the
  separator. It is compared with \<^verbatim>\<open>text.split(/[.?!]\s+/)\<close> below.
\<close>

definition isSentenceEnd :: "jschar \<Rightarrow> bool" where
  "isSentenceEnd c \<longleftrightarrow> c = 0x2E \<or> c = 0x3F \<or> c = 0x21"

function fragments :: "jsstring \<Rightarrow> jsstring \<Rightarrow> jsstring list" where
  "fragments cur [] = [cur]"
| "fragments cur [c] = [cur @ [c]]"
| "fragments cur (c # d # rest) =
     (if isSentenceEnd c \<and> isWhiteSpace d
      then cur # fragments [] (dropWhile isWhiteSpace rest)
      else fragments (cur @ [c]) (d # rest))"
  by pat_completeness auto
termination
  by (relation "measure (\<lambda>(cur, s). length s)")
    (auto simp: length_dropWhile_le le_imp_less_Suc less_SucI)

section \<open>Helper lemmas: the memory buffer\<close>

lemma pushMemory_eq: "pushMemory = pushToMemory"
  by (simp add: fun_eq_iff pushMemory_def pushToMemory_def MAX_MEMORY_def
      MAX_MEMORY_MESSAGES_def)

lemma pushAllMemory_eq: "pushAllMemory calls m = pushAll calls m"
  by (induction calls m rule: pushAll.induct) (simp_all add: pushMemory_eq)

lemma pushToMemory_bound:
  "length m \<le> 6 \<Longrightarrow> length (pushToMemory r c m) \<le> 6"
  by (simp add: pushToMemory_def MAX_MEMORY_MESSAGES_def Let_def)

lemma pushAll_bound: "length m \<le> 6 \<Longrightarrow> length (pushAll calls m) \<le> 6"
  by (induction calls m rule: pushAll.induct) (simp_all add: pushToMemory_bound)

lemma pushAll_append: "pushAll (xs @ ys) m = pushAll ys (pushAll xs m)"
  by (induction xs m rule: pushAll.induct) simp_all

lemma pushToMemory_cases:
  "length m \<le> 6 \<Longrightarrow>
   pushToMemory r c m =
     (if length m < 6 then m @ [\<lparr>role = r, content = c\<rparr>]
      else tl m @ [\<lparr>role = r, content = c\<rparr>])"
  by (cases m) (simp_all add: pushToMemory_def MAX_MEMORY_MESSAGES_def Let_def)

lemma last_pushToMemory: "last (pushToMemory r c m) = \<lparr>role = r, content = c\<rparr>"
  by (cases m) (simp_all add: pushToMemory_def Let_def MAX_MEMORY_MESSAGES_def)

lemma pushToMemory_suffix:
  "suffix (pushToMemory r c m) (m @ [\<lparr>role = r, content = c\<rparr>])"
proof (cases "length (m @ [\<lparr>role = r, content = c\<rparr>]) > MAX_MEMORY_MESSAGES")
  case True
  then have "pushToMemory r c m = tl (m @ [\<lparr>role = r, content = c\<rparr>])"
    by (simp add: pushToMemory_def Let_def)
  then show ?thesis by (simp only: suffix_tl)
next
  case False
  then have "pushToMemory r c m = m @ [\<lparr>role = r, content = c\<rparr>]"
    by (simp add: pushToMemory_def Let_def)
  then show ?thesis by (simp only: suffix_order.refl)
qed

lemma pushAll_last6_gen:
  "length m \<le> 6 \<Longrightarrow>
   pushAll calls m = drop (length m + length calls - 6) (m @ map mkTurn calls)"
proof (induction calls m rule: pushAll.induct)
  case (1 m)
  then show ?case by simp
next
  case (2 r c calls m)
  let ?t = "\<lparr>role = r, content = c\<rparr>"
  have b: "length (pushToMemory r c m) \<le> 6"
    using 2(2) by (rule pushToMemory_bound)
  show ?case
  proof (cases "length m < 6")
    case True
    then have "pushToMemory r c m = m @ [?t]"
      using 2(2) by (simp add: pushToMemory_cases)
    then show ?thesis using 2(1)[OF b] by (simp add: mkTurn_def)
  next
    case False
    then have l: "length m = 6" using 2(2) by simp
    then have p: "pushToMemory r c m = tl m @ [?t]"
      by (simp add: pushToMemory_cases)
    have "drop (length m + length ((r, c) # calls) - 6) (m @ map mkTurn ((r, c) # calls))
        = drop (Suc (length calls)) (m @ ?t # map mkTurn calls)"
      using l by (simp add: mkTurn_def)
    also have "\<dots> = drop (length calls) (tl m @ ?t # map mkTurn calls)"
      using l by (cases m) simp_all
    finally show ?thesis using 2(1)[OF b] p l by simp
  qed
qed

section \<open>Helper lemmas: strings\<close>

lemma includesStr_iff: "includesStr s pat \<longleftrightarrow> (\<exists>p q. s = p @ pat @ q)"
proof (induction s)
  case Nil
  then show ?case by auto
next
  case (Cons c cs)
  show ?case
  proof
    assume "includesStr (c # cs) pat"
    then consider "prefix pat (c # cs)" | "includesStr cs pat" by auto
    then show "\<exists>p q. c # cs = p @ pat @ q"
    proof cases
      case 1
      then obtain q where "c # cs = pat @ q" by (auto simp: prefix_def)
      then have "c # cs = [] @ pat @ q" by simp
      then show ?thesis by blast
    next
      case 2
      then obtain p q where "cs = p @ pat @ q" using Cons.IH by auto
      then have "c # cs = (c # p) @ pat @ q" by simp
      then show ?thesis by blast
    qed
  next
    assume "\<exists>p q. c # cs = p @ pat @ q"
    then obtain p q where e: "c # cs = p @ pat @ q" by auto
    show "includesStr (c # cs) pat"
    proof (cases p)
      case Nil
      then have "prefix pat (c # cs)" using e by (simp add: prefix_def)
      then show ?thesis by simp
    next
      case (Cons a p')
      then have "cs = p' @ pat @ q" using e by simp
      then show ?thesis using Cons.IH by auto
    qed
  qed
qed

lemma includesStr_prefix: "includesStr (pat @ q) pat"
proof (cases "pat @ q")
  case Nil
  then show ?thesis by simp
next
  case (Cons a l)
  then have "prefix pat (a # l)" by (metis prefixI)
  then show ?thesis using Cons by simp
qed

lemma foldl_bullet: "foldl (\<lambda>output line. output @ bullet line) acc ls = acc @ concat (map bullet ls)"
  by (induction ls arbitrary: acc) simp_all

lemma heading_marker: "heading = str ''##'' @ (str '' '' @ [0xD83D, 0xDCCC] @ str '' Response'' @ [0x0A, 0x0A])"
  by (simp add: heading_def str_def)

lemma enforce_unstructured:
  "text \<noteq> [] \<Longrightarrow> \<not> includesStr text (str ''##'') \<Longrightarrow> \<not> includesStr text (str ''- '') \<Longrightarrow>
   \<not> includesStr text (str ''**'') \<Longrightarrow>
   enforceMarkdownStructure text =
     heading @ concat (map bullet (filter (\<lambda>line. line \<noteq> []) (splitRe False sentenceRe text)))"
  by (simp add: enforceMarkdownStructure_def foldl_bullet)

lemma enforce_idem: "enforceMarkdownStructure (enforceMarkdownStructure t) = enforceMarkdownStructure t"
proof (cases "t = [] \<or> includesStr t (str ''##'') \<or> includesStr t (str ''- '') \<or> includesStr t (str ''**'')")
  case True
  then show ?thesis by (auto simp: enforceMarkdownStructure_def)
next
  case False
  then have e: "enforceMarkdownStructure t =
     heading @ concat (map bullet (filter (\<lambda>line. line \<noteq> []) (splitRe False sentenceRe t)))"
    by (simp add: enforce_unstructured)
  have "includesStr (enforceMarkdownStructure t) (str ''##'')"
    unfolding e heading_marker append_assoc by (rule includesStr_prefix)
  moreover have "enforceMarkdownStructure t \<noteq> []" unfolding e by (simp add: heading_def)
  ultimately show ?thesis by (simp add: enforceMarkdownStructure_def[of "enforceMarkdownStructure t"])
qed

lemma trim_Nil: "trim [] = []"
  by (simp add: trim_def)

lemma sanitize_Nil: "sanitize [] = []"
  by (simp add: sanitize_def trim_def scriptRe_def angleRe_def str_def)

section \<open>Helper lemmas: the replacements of the sanitizer\<close>

lemma match_literals:
  "matchRe True (map (\<lambda>c. One (Lit c)) pat @ r) s =
     (if length pat \<le> length s \<and> sameText (take (length pat) s) pat
      then map_option (\<lambda>n. length pat + n) (matchRe True r (drop (length pat) s))
      else None)"
proof (induction pat arbitrary: s)
  case Nil
  show ?case by (cases "matchRe True r s") (simp_all add: sameText_def)
next
  case (Cons p ps)
  show ?case
  proof (cases s)
    case Nil
    then show ?thesis by simp
  next
    case (Cons c rest)
    then show ?thesis
      using Cons.IH [of rest]
      by (auto simp: sameText_def sameChar_def option.map_comp comp_def)
  qed
qed

lemma lazy_sound:
  "matchRe ic (LazyStar cs # r) s = Some n \<Longrightarrow>
   \<exists>a t n'. s = a @ t \<and> (\<forall>x \<in> set a. charMatches ic cs x) \<and>
     matchRe ic r t = Some n' \<and> n = length a + n' \<and>
     (\<forall>a' t'. s = a' @ t' \<and> length a' < length a \<longrightarrow> matchRe ic r t' = None)"
proof (induction s arbitrary: n)
  case Nil
  then have "matchRe ic r [] = Some n" by simp
  then show ?case by auto
next
  case (Cons c rest)
  show ?case
  proof (cases "matchRe ic r (c # rest)")
    case (Some m)
    then have "n = m" using Cons.prems by simp
    then have "c # rest = [] @ (c # rest) \<and> (\<forall>x \<in> set []. charMatches ic cs x) \<and>
      matchRe ic r (c # rest) = Some n \<and> n = length ([]::jsstring) + n \<and>
      (\<forall>a' t'. c # rest = a' @ t' \<and> length a' < length ([]::jsstring) \<longrightarrow> matchRe ic r t' = None)"
      using Some by simp
    then show ?thesis by blast
  next
    case None
    then have m: "charMatches ic cs c"
      and "map_option Suc (matchRe ic (LazyStar cs # r) rest) = Some n"
      using Cons.prems by (auto split: if_splits)
    then obtain n0 where n0: "matchRe ic (LazyStar cs # r) rest = Some n0" "n = Suc n0"
      by auto
    from Cons.IH [OF n0(1)] obtain a t n' where
      d: "rest = a @ t" "\<forall>x \<in> set a. charMatches ic cs x" "matchRe ic r t = Some n'"
        "n0 = length a + n'"
      and mn: "\<forall>a' t'. rest = a' @ t' \<and> length a' < length a \<longrightarrow> matchRe ic r t' = None"
      by blast
    have "\<forall>a' t'. c # rest = a' @ t' \<and> length a' < length (c # a) \<longrightarrow> matchRe ic r t' = None"
    proof (intro allI impI)
      fix a' t'
      assume h: "c # rest = a' @ t' \<and> length a' < length (c # a)"
      show "matchRe ic r t' = None"
      proof (cases a')
        case Nil
        then show ?thesis using h None by simp
      next
        case (Cons x a'')
        then have "rest = a'' @ t'" "length a'' < length a" using h by auto
        then show ?thesis using mn by blast
      qed
    qed
    moreover have "c # rest = (c # a) @ t" using d(1) by simp
    moreover have "\<forall>x \<in> set (c # a). charMatches ic cs x" using d(2) m by simp
    moreover have "n = length (c # a) + n'" using d(4) n0(2) by simp
    ultimately show ?thesis using d(3) by blast
  qed
qed

lemma lazy_complete:
  "\<forall>x \<in> set a. charMatches ic cs x \<Longrightarrow> matchRe ic r t \<noteq> None \<Longrightarrow>
   matchRe ic (LazyStar cs # r) (a @ t) \<noteq> None"
proof (induction a)
  case Nil
  then show ?case by (cases t) (auto split: option.splits)
next
  case (Cons x a)
  then show ?case by (auto split: option.splits)
qed

lemma canonicalize_gt: "canonicalize c = canonicalize 0x3E \<longleftrightarrow> c = 0x3E"
proof
  assume a: "canonicalize c = canonicalize 0x3E"
  have g: "canonicalize 0x3E = 0x3E" by (simp add: canonicalize_def)
  show "c = 0x3E"
  proof (cases "0x61 \<le> c \<and> c \<le> 0x7A")
    case True
    then have "c - 0x20 = 0x3E" using a g by (simp add: canonicalize_def)
    then have "c = 0x3E + 0x20" by (simp add: diff_eq_eq)
    then have "c = 0x5E" by simp
    then show ?thesis using True by simp
  next
    case False
    then have "canonicalize c = c" unfolding canonicalize_def by (simp only: if_False)
    then show ?thesis using a g by simp
  qed
next
  assume "c = 0x3E"
  then show "canonicalize c = canonicalize 0x3E" by simp
qed

lemma match_gt:
  "matchRe True (One (Lit 0x3E) # r) s =
     (case s of [] \<Rightarrow> None
      | c # rest \<Rightarrow> if c = 0x3E then map_option Suc (matchRe True r rest) else None)"
  by (cases s) (simp_all add: sameChar_def canonicalize_gt)


lemma closeTag_length: "length (str ''</script>'') = 9"
  by (simp add: str_def)

lemma close_match:
  "matchRe True (map (\<lambda>c. One (Lit c)) (str ''</script>'')) v =
     (if 9 \<le> length v \<and> sameText (take 9 v) (str ''</script>'') then Some 9 else None)"
  using match_literals [of "str ''</script>''" "[]" v] by (simp add: closeTag_length)

lemma close_match_block:
  assumes "sameText e (str ''</script>'')"
  shows "matchRe True (map (\<lambda>c. One (Lit c)) (str ''</script>'')) (e @ v) = Some 9"
proof -
  have "length e = 9" using sameText_length [OF assms] by (simp add: closeTag_length)
  then show ?thesis using assms by (simp add: close_match)
qed

lemma inner_complete:
  assumes "\<forall>x \<in> set a. \<not> isLineTerminator x" and "\<forall>x \<in> set c. \<not> isLineTerminator x"
    and "sameText e (str ''</script>'')"
  shows "matchRe True
           (LazyStar Dot # One (Lit 0x3E) # LazyStar Dot #
              map (\<lambda>c. One (Lit c)) (str ''</script>''))
           (a @ [0x3E] @ c @ e @ v) \<noteq> None"
proof -
  let ?close = "map (\<lambda>c. One (Lit c)) (str ''</script>'')"
  have "matchRe True ?close (e @ v) \<noteq> None" using close_match_block [OF assms(3)] by simp
  then have "matchRe True (LazyStar Dot # ?close) (c @ e @ v) \<noteq> None"
    using assms(2) by (intro lazy_complete) simp_all
  then have "matchRe True (One (Lit 0x3E) # LazyStar Dot # ?close) (0x3E # c @ e @ v) \<noteq> None"
    by (simp add: sameChar_def)
  then have "matchRe True (LazyStar Dot # One (Lit 0x3E) # LazyStar Dot # ?close)
      (a @ 0x3E # c @ e @ v) \<noteq> None"
    using assms(1) by (intro lazy_complete) simp_all
  then show ?thesis by simp
qed

lemma inner_sound:
  assumes "matchRe True
           (LazyStar Dot # One (Lit 0x3E) # LazyStar Dot #
              map (\<lambda>c. One (Lit c)) (str ''</script>'')) D = Some n"
  shows "\<exists>a c e v. D = a @ [0x3E] @ c @ e @ v \<and>
           (\<forall>x \<in> set a. \<not> isLineTerminator x) \<and> (\<forall>x \<in> set c. \<not> isLineTerminator x) \<and>
           sameText e (str ''</script>'') \<and> n = length a + 1 + length c + 9 \<and>
           (\<forall>a' c' e' v'. D = a' @ [0x3E] @ c' @ e' @ v' \<and>
               (\<forall>x \<in> set c'. \<not> isLineTerminator x) \<and> sameText e' (str ''</script>'')
               \<longrightarrow> length a + length c \<le> length a' + length c')"
proof -
  let ?close = "map (\<lambda>c. One (Lit c)) (str ''</script>'')"
  let ?R2 = "LazyStar Dot # ?close"
  let ?R1 = "One (Lit 0x3E) # ?R2"
  from lazy_sound [OF assms] obtain a t n' where
    d1: "D = a @ t" "\<forall>x \<in> set a. charMatches True Dot x" "matchRe True ?R1 t = Some n'"
      "n = length a + n'"
    and m1: "\<forall>a' t'. D = a' @ t' \<and> length a' < length a \<longrightarrow> matchRe True ?R1 t' = None"
    by blast
  from d1(3) obtain u n'' where
    t: "t = 0x3E # u" and u: "matchRe True ?R2 u = Some n''" and n': "n' = Suc n''"
    by (auto simp: match_gt split: list.splits if_splits)
  from lazy_sound [OF u] obtain c v0 n3 where
    d2: "u = c @ v0" "\<forall>x \<in> set c. charMatches True Dot x" "matchRe True ?close v0 = Some n3"
      "n'' = length c + n3"
    and m2: "\<forall>c' t'. u = c' @ t' \<and> length c' < length c \<longrightarrow> matchRe True ?close t' = None"
    by blast
  from d2(3) have v0: "9 \<le> length v0" "sameText (take 9 v0) (str ''</script>'')" "n3 = 9"
    by (auto simp: close_match split: if_splits)
  have D: "D = a @ [0x3E] @ c @ take 9 v0 @ drop 9 v0"
    using d1(1) t d2(1) by simp
  have n: "n = length a + 1 + length c + 9"
    using d1(4) n' d2(4) v0(3) by simp
  have least: "length a + length c \<le> length a' + length c'"
    if h: "D = a' @ [0x3E] @ c' @ e' @ v'" "\<forall>x \<in> set c'. \<not> isLineTerminator x"
      "sameText e' (str ''</script>'')" for a' c' e' v'
  proof (rule ccontr)
    assume "\<not> length a + length c \<le> length a' + length c'"
    then have lt: "length a' + length c' < length a + length c" by simp
    have f1: "matchRe True ?close (e' @ v') = Some 9" by (rule close_match_block [OF h(3)])
    consider "length a' < length a" | "length a' = length a" | "length a < length a'"
      by linarith
    then show False
    proof cases
      case 1
      have "matchRe True ?R2 (c' @ e' @ v') \<noteq> None"
        using h(2) f1 by (intro lazy_complete) simp_all
      then have "matchRe True ?R1 (0x3E # c' @ e' @ v') \<noteq> None"
        by (simp add: sameChar_def)
      moreover have "D = a' @ (0x3E # c' @ e' @ v')" using h(1) by simp
      then have "matchRe True ?R1 (0x3E # c' @ e' @ v') = None"
        using m1 1 by blast
      ultimately show False by simp
    next
      case 2
      then have "a' = a" "0x3E # c' @ e' @ v' = t"
        using h(1) d1(1) by auto
      then have "u = c' @ e' @ v'" using t by simp
      moreover have "length c' < length c" using lt 2 by simp
      ultimately have "matchRe True ?close (e' @ v') = None" using m2 by blast
      then show False using f1 by simp
    next
      case 3
      have eq: "a @ (0x3E # u) = a' @ (0x3E # c' @ e' @ v')"
        using h(1) d1(1) t by simp
      then obtain w where w: "a' = a @ w" "0x3E # u = w @ (0x3E # c' @ e' @ v')"
        using 3 by (auto simp: append_eq_append_conv2)
      then have "w \<noteq> []" using 3 by auto
      then obtain w' where w': "w = 0x3E # w'" "u = w' @ (0x3E # c' @ e' @ v')"
        using w(2) by (cases w) auto
      then have "u = (w' @ 0x3E # c') @ (e' @ v')" by simp
      moreover have "length (w' @ 0x3E # c') < length c"
        using lt w(1) w'(1) by simp
      ultimately have "matchRe True ?close (e' @ v') = None" using m2 by blast
      then show False using f1 by simp
    qed
  qed
  have "\<forall>x \<in> set a. \<not> isLineTerminator x" "\<forall>x \<in> set c. \<not> isLineTerminator x"
    using d1(2) d2(2) by simp_all
  then show ?thesis using D n v0(2) least by blast
qed


lemma openTag_length: "length (str ''<script'') = 7"
  by (simp add: str_def)

lemma match_scriptRe:
  "matchRe True scriptRe s =
     (if 7 \<le> length s \<and> sameText (take 7 s) (str ''<script'')
      then map_option (\<lambda>n. 7 + n)
             (matchRe True
                (LazyStar Dot # One (Lit 0x3E) # LazyStar Dot #
                   map (\<lambda>c. One (Lit c)) (str ''</script>''))
                (drop 7 s))
      else None)"
proof -
  have eq: "scriptRe = map (\<lambda>c. One (Lit c)) (str ''<script'') @
      (LazyStar Dot # One (Lit 0x3E) # LazyStar Dot # map (\<lambda>c. One (Lit c)) (str ''</script>''))"
    by (simp add: scriptRe_def)
  show ?thesis
    by (subst eq) (simp add: match_literals openTag_length)
qed

lemma script_complete:
  assumes "isOneLineScriptBlock (take k s)"
  shows "matchRe True scriptRe s \<noteq> None"
proof -
  from assms obtain opn a c e where
    b: "take k s = opn @ a @ [0x3E] @ c @ e"
    and o: "sameText opn (str ''<script'')" and e: "sameText e (str ''</script>'')"
    and lt: "\<forall>x \<in> set a. \<not> isLineTerminator x" "\<forall>x \<in> set c. \<not> isLineTerminator x"
    unfolding isOneLineScriptBlock_iff by blast
  have lo: "length opn = 7" using sameText_length [OF o] by (simp add: openTag_length)
  have s: "s = opn @ (a @ [0x3E] @ c @ e @ drop k s)"
    using append_take_drop_id [of k s] b by simp
  have t: "take 7 (opn @ (a @ [0x3E] @ c @ e @ drop k s)) = opn"
    and d: "drop 7 (opn @ (a @ [0x3E] @ c @ e @ drop k s)) = a @ [0x3E] @ c @ e @ drop k s"
    using lo by simp_all
  have t': "take 7 s = opn" and d': "drop 7 s = a @ [0x3E] @ c @ e @ drop k s"
    using t d s by metis+
  have l: "7 \<le> length s" using lo s by (metis le_add1 length_append)
  have "matchRe True
          (LazyStar Dot # One (Lit 0x3E) # LazyStar Dot # map (\<lambda>c. One (Lit c)) (str ''</script>''))
          (drop 7 s) \<noteq> None"
    unfolding d' using lt e by (rule inner_complete)
  then show ?thesis using l t' o by (auto simp: match_scriptRe)
qed

lemma script_sound:
  assumes "matchRe True scriptRe s = Some n"
  shows "n \<le> length s \<and> isOneLineScriptBlock (take n s) \<and> (\<forall>k<n. \<not> isOneLineScriptBlock (take k s))"
proof -
  let ?R0 = "LazyStar Dot # One (Lit 0x3E) # LazyStar Dot #
    map (\<lambda>c. One (Lit c)) (str ''</script>'')"
  from assms obtain n1 where
    l: "7 \<le> length s" and o: "sameText (take 7 s) (str ''<script'')"
    and m: "matchRe True ?R0 (drop 7 s) = Some n1" and n: "n = 7 + n1"
    by (auto simp: match_scriptRe split: if_splits)
  from inner_sound [OF m] obtain a c e v where
    d: "drop 7 s = a @ [0x3E] @ c @ e @ v"
    and lt: "\<forall>x \<in> set a. \<not> isLineTerminator x" "\<forall>x \<in> set c. \<not> isLineTerminator x"
    and e: "sameText e (str ''</script>'')"
    and n1: "n1 = length a + 1 + length c + 9"
    and least: "\<forall>a' c' e' v'. drop 7 s = a' @ [0x3E] @ c' @ e' @ v' \<and>
               (\<forall>x \<in> set c'. \<not> isLineTerminator x) \<and> sameText e' (str ''</script>'')
               \<longrightarrow> length a + length c \<le> length a' + length c'"
    by blast
  have le: "length e = 9" using sameText_length [OF e] by (simp add: closeTag_length)
  define opn where "opn = take 7 s"
  have lo: "length opn = 7" using l by (simp add: opn_def)
  have s: "s = (opn @ a @ [0x3E] @ c @ e) @ v"
    using append_take_drop_id [of 7 s] d by (simp add: opn_def)
  have len: "length (opn @ a @ [0x3E] @ c @ e) = n"
    using lo le n n1 by simp
  have "take (length (opn @ a @ [0x3E] @ c @ e)) ((opn @ a @ [0x3E] @ c @ e) @ v) =
      opn @ a @ [0x3E] @ c @ e"
    by (rule append_eq_conv_conj [THEN iffD1, THEN conjunct1, symmetric]) (rule refl)
  then have tk: "take n s = opn @ a @ [0x3E] @ c @ e"
    using s len by metis
  have blk: "isOneLineScriptBlock (take n s)"
    unfolding tk isOneLineScriptBlock_iff using o e lt opn_def by blast
  have nl: "n \<le> length s" using len s
    by (metis le_add1 length_append)
  have "\<not> isOneLineScriptBlock (take k s)" if k: "k < n" for k
  proof
    assume "isOneLineScriptBlock (take k s)"
    then obtain o' a' c' e' where
      b: "take k s = o' @ a' @ [0x3E] @ c' @ e'"
      and o': "sameText o' (str ''<script'')" and e': "sameText e' (str ''</script>'')"
      and lt': "\<forall>x \<in> set c'. \<not> isLineTerminator x"
      unfolding isOneLineScriptBlock_iff by blast
    have lo': "length o' = 7" using sameText_length [OF o'] by (simp add: openTag_length)
    have le': "length e' = 9" using sameText_length [OF e'] by (simp add: closeTag_length)
    have s': "s = o' @ (a' @ [0x3E] @ c' @ e' @ drop k s)"
      using append_take_drop_id [of k s] b by simp
    have "drop 7 (o' @ (a' @ [0x3E] @ c' @ e' @ drop k s)) = a' @ [0x3E] @ c' @ e' @ drop k s"
      using lo' by simp
    then have d': "drop 7 s = a' @ [0x3E] @ c' @ e' @ drop k s"
      using s' by metis
    have "length a + length c \<le> length a' + length c'"
      using least d' lt' e' by blast
    then have "n \<le> length (o' @ a' @ [0x3E] @ c' @ e')"
      using n n1 lo' le' by simp
    then have "n \<le> length (take k s)" using b by simp
    then show False using k by simp
  qed
  then show ?thesis using nl blk by blast
qed

lemma match_script_shortest: "matchRe True scriptRe s = shortestOneLineBlock s"
proof (cases "matchRe True scriptRe s")
  case None
  then have "\<forall>k. \<not> isOneLineScriptBlock (take k s)" using script_complete by blast
  then have "shortestOneLineBlock s = None" by (simp add: shortestOneLineBlock_None)
  then show ?thesis using None by simp
next
  case (Some n)
  then show ?thesis using script_sound [OF Some] shortestOneLineBlock_Some [of s n] by simp
qed

lemma replace_script: "replaceG True scriptRe [] s = removeOneLineScriptBlocks s"
proof (induction s rule: removeOneLineScriptBlocks.induct)
  case 1
  then show ?case by (simp split: option.splits)
next
  case (2 c cs)
  show ?case
  proof (cases "shortestOneLineBlock (c # cs)")
    case None
    then show ?thesis using 2(1) [OF None] by (simp add: match_script_shortest)
  next
    case (Some n)
    then have "n \<noteq> 0" using shortestOneLineBlock_pos by blast
    then show ?thesis using Some 2(2) [OF Some] by (simp add: match_script_shortest)
  qed
qed

lemma match_angle:
  "matchRe False angleRe (c # rest) = (if c = 0x3C \<or> c = 0x3E then Some 1 else None)"
  by (auto simp: angleRe_def str_def sameChar_def)

lemma replace_angle:
  "replaceG False angleRe [] s = filter (\<lambda>c. c \<noteq> 0x3C \<and> c \<noteq> 0x3E) s"
proof (induction s)
  case Nil
  then show ?case by (simp add: angleRe_def)
next
  case (Cons c s)
  then show ?case by (simp add: match_angle)
qed

section \<open>Helper lemmas: the splitting of the enforcer\<close>

lemma sameChar_plain: "sameChar False p c \<longleftrightarrow> c = p"
  by (simp add: sameChar_def)

lemma sentence_class: "charMatches False (Cls (str ''.?!'')) c \<longleftrightarrow> isSentenceEnd c"
  by (auto simp: str_def sameChar_def isSentenceEnd_def)

lemma match_spaces: "matchRe ic [GreedyStar Space] s = Some (length (takeWhile isWhiteSpace s))"
  by (induction s) auto

lemma match_sentenceRe:
  "matchRe False sentenceRe s =
     (case s of
        c # d # rest \<Rightarrow>
          if isSentenceEnd c \<and> isWhiteSpace d
          then Some (2 + length (takeWhile isWhiteSpace rest)) else None
      | _ \<Rightarrow> None)"
proof (cases s)
  case Nil
  then show ?thesis by (simp add: sentenceRe_def)
next
  case (Cons c s')
  show ?thesis
  proof (cases s')
    case Nil
    then show ?thesis using Cons by (simp add: sentenceRe_def)
  next
    case (Cons d rest)
    then show ?thesis using \<open>s = c # s'\<close>
      by (simp add: sentenceRe_def sentence_class match_spaces del: charMatches.simps(3))
  qed
qed

lemma splitLoop_step:
  "splitLoop False sentenceRe cur (c # d # rest) =
     (if isSentenceEnd c \<and> isWhiteSpace d
      then cur # splitLoop False sentenceRe [] (dropWhile isWhiteSpace rest)
      else splitLoop False sentenceRe (cur @ [c]) (d # rest))"
  by (subst splitLoop.simps(2))
    (simp add: match_sentenceRe dropWhile_eq_drop del: splitLoop.simps)

lemma splitLoop_fragments: "splitLoop False sentenceRe cur s = fragments cur s"
proof (induction cur s rule: fragments.induct)
  case (1 cur)
  then show ?case by simp
next
  case (2 cur c)
  then show ?case by (simp add: match_sentenceRe)
next
  case (3 cur c d rest)
  show ?case
  proof (cases "isSentenceEnd c \<and> isWhiteSpace d")
    case True
    have "splitLoop False sentenceRe cur (c # d # rest) =
        cur # splitLoop False sentenceRe [] (dropWhile isWhiteSpace rest)"
      using True by (simp only: splitLoop_step if_True simp_thms)
    also have "\<dots> = cur # fragments [] (dropWhile isWhiteSpace rest)"
      using 3(1) [OF True] by (simp only:)
    also have "\<dots> = fragments cur (c # d # rest)"
      using True by (simp only: fragments.simps if_True simp_thms)
    finally show ?thesis .
  next
    case False
    have "splitLoop False sentenceRe cur (c # d # rest) =
        splitLoop False sentenceRe (cur @ [c]) (d # rest)"
      using False by (simp only: splitLoop_step if_False simp_thms)
    also have "\<dots> = fragments (cur @ [c]) (d # rest)"
      using 3(2) [OF False] by (simp only:)
    also have "\<dots> = fragments cur (c # d # rest)"
      using False by (simp only: fragments.simps if_False simp_thms)
    finally show ?thesis .
  qed
qed

lemma splitRe_fragments: "splitRe False sentenceRe t = fragments [] t"
  by (cases t) (simp_all add: splitRe_def splitLoop_fragments match_sentenceRe del: splitLoop.simps)

lemma enforce_structured:
  "includesStr text (str ''##'') \<or> includesStr text (str ''- '') \<or> includesStr text (str ''**'') \<Longrightarrow>
   enforceMarkdownStructure text = text"
  by (auto simp: enforceMarkdownStructure_def)

lemma includesStr_mid: "includesStr (p @ pat @ q) pat"
  using includesStr_iff by blast

lemma bold_marker: "str ''**bold**'' = str ''**'' @ str ''bold**''"
  by (simp add: str_def)

section \<open>Helper lemmas: the chat endpoint\<close>

lemma systemPromptOf_valid:
  "sys = JUndefined \<or> isString sys \<Longrightarrow>
   systemPromptOf sys =
     Inr (case sys of JStr s \<Rightarrow> if s = [] then JNull else JStr (sanitize s) | _ \<Rightarrow> JNull)"
  by (cases sys) (auto simp: systemPromptOf_def)

lemma enforce_fallback: "enforceValue (JStr emptyResponseReply) = Inr (JStr emptyResponseReply)"
proof -
  have e: "emptyResponseReply = str ''##'' @ (str '' '' @ [0x26A0, 0xFE0F] @ str '' AI Error'' @ [0x0A] @
     str ''- Empty response received'')"
    by (simp add: emptyResponseReply_def str_def)
  have i: "includesStr emptyResponseReply (str ''##'')"
    unfolding e by (rule includesStr_prefix)
  have n: "emptyResponseReply \<noteq> []" by (simp add: emptyResponseReply_def str_def)
  show ?thesis using i n by (simp add: enforceValue_def enforceMarkdownStructure_def)
qed

lemma chatTry_memory_bound:
  "length m \<le> 6 \<Longrightarrow> length (fst (chatTry body provider m)) \<le> 6"
  by (auto simp: chatTry_def Let_def pushToMemory_bound split: sum.splits)

lemma handleChat_memory_bound:
  "length m \<le> 6 \<Longrightarrow> length (memoryAfter (handleChat body provider m)) \<le> 6"
  using chatTry_memory_bound[of m body provider]
  by (cases "chatTry body provider m") (simp add: handleChat_def)

lemma handleChat_invalid:
  "\<not> truthy (optProp body (str ''message'')) \<or> \<not> isString (optProp body (str ''message'')) \<Longrightarrow>
   handleChat body provider m =
     \<lparr>response = \<lparr>status = 400, reply = JStr invalidRequestReply\<rparr>,
      memoryAfter = m, providerCalls = []\<rparr>"
  by (auto simp: handleChat_def chatTry_def Let_def)

lemma chatTry_valid:
  assumes "optProp body (str ''message'') = JStr msg" "msg \<noteq> []"
    and "systemPromptOf (optProp body (str ''system'')) = Inr sp"
  shows "chatTry body provider m =
     (let memory1 = pushToMemory (str ''user'') (JStr (sanitize msg)) m;
          messages = buildMessages sp memory1
      in case provider messages of
           Inl e \<Rightarrow> (memory1, [messages], Inl e)
         | Inr completion \<Rightarrow>
           (case enforceValue (extractReply completion) of
              Inl e \<Rightarrow> (memory1, [messages], Inl e)
            | Inr aiReply \<Rightarrow>
                (pushToMemory (str ''assistant'') aiReply memory1, [messages],
                 Inr \<lparr>status = 200, reply = aiReply\<rparr>)))"
  using assms by (simp add: chatTry_def Let_def)

lemma handleChat_valid:
  assumes "optProp body (str ''message'') = JStr msg" "msg \<noteq> []"
    and "systemPromptOf (optProp body (str ''system'')) = Inr sp"
  shows "providerCalls (handleChat body provider m) =
           [buildMessages sp (pushToMemory (str ''user'') (JStr (sanitize msg)) m)]"
  using assms
  by (simp add: handleChat_def chatTry_valid Let_def split: sum.splits)

lemma handleChat_throws:
  assumes "optProp body (str ''message'') = JStr msg" "msg \<noteq> []"
    and "systemPromptOf (optProp body (str ''system'')) = Inr sp"
    and "provider (buildMessages sp (pushToMemory (str ''user'') (JStr (sanitize msg)) m)) = Inl e"
  shows "handleChat body provider m =
           \<lparr>response = \<lparr>status = 500, reply = JStr serverErrorReply\<rparr>,
            memoryAfter = pushToMemory (str ''user'') (JStr (sanitize msg)) m,
            providerCalls = [buildMessages sp (pushToMemory (str ''user'') (JStr (sanitize msg)) m)]\<rparr>"
  using assms by (simp add: handleChat_def chatTry_valid Let_def)

lemma handleChat_returns:
  assumes "optProp body (str ''message'') = JStr msg" "msg \<noteq> []"
    and "systemPromptOf (optProp body (str ''system'')) = Inr sp"
    and "provider (buildMessages sp (pushToMemory (str ''user'') (JStr (sanitize msg)) m)) = Inr completion"
    and "enforceValue (extractReply completion) = Inr aiReply"
  shows "handleChat body provider m =
           \<lparr>response = \<lparr>status = 200, reply = aiReply\<rparr>,
            memoryAfter = pushToMemory (str ''assistant'') aiReply
              (pushToMemory (str ''user'') (JStr (sanitize msg)) m),
            providerCalls = [buildMessages sp (pushToMemory (str ''user'') (JStr (sanitize msg)) m)]\<rparr>"
  using assms by (simp add: handleChat_def chatTry_valid Let_def)

lemma chatTryEarlier_memory_bound:
  "length m \<le> 6 \<Longrightarrow> length (fst (chatTryEarlier body provider m)) \<le> 6"
  by (auto simp: chatTryEarlier_def Let_def pushMemory_eq pushToMemory_bound split: sum.splits)

lemma handleChatEarlier_memory_bound:
  "length m \<le> 6 \<Longrightarrow> length (memoryAfter (handleChatEarlier body provider m)) \<le> 6"
  using chatTryEarlier_memory_bound[of m body provider]
  by (cases "chatTryEarlier body provider m") (simp add: handleChatEarlier_def)

lemma handleChatEarlier_invalid:
  "body \<noteq> JUndefined \<Longrightarrow> body \<noteq> JNull \<Longrightarrow>
   \<not> truthy (optProp body (str ''message'')) \<or> \<not> isString (optProp body (str ''message'')) \<Longrightarrow>
   handleChatEarlier body provider m =
     \<lparr>response = \<lparr>status = 400, reply = JStr invalidRequestReplyEarlier\<rparr>,
      memoryAfter = m, providerCalls = []\<rparr>"
  by (auto simp: handleChatEarlier_def chatTryEarlier_def Let_def)

lemma optProp_JStr_body: "optProp body k = JStr msg \<Longrightarrow> body \<noteq> JUndefined \<and> body \<noteq> JNull"
  by (cases body) auto

lemma chatTryEarlier_valid:
  assumes "optProp body (str ''message'') = JStr msg" "msg \<noteq> []"
    and "systemPromptOf (optProp body (str ''system'')) = Inr sp"
  shows "chatTryEarlier body provider m =
     (let memory1 = pushToMemory (str ''user'') (JStr (sanitize msg)) m;
          messages = buildMessages sp memory1
      in case provider messages of
           Inl e \<Rightarrow> (memory1, [messages], Inl e)
         | Inr completion \<Rightarrow>
             (pushToMemory (str ''assistant'') (extractReplyEarlier completion) memory1,
              [messages], Inr \<lparr>status = 200, reply = extractReplyEarlier completion\<rparr>))"
  using assms optProp_JStr_body [OF assms(1)]
  by (simp add: chatTryEarlier_def Let_def pushMemory_eq split: sum.splits)

lemma handleChatEarlier_valid:
  assumes "optProp body (str ''message'') = JStr msg" "msg \<noteq> []"
    and "systemPromptOf (optProp body (str ''system'')) = Inr sp"
  shows "providerCalls (handleChatEarlier body provider m) =
           [buildMessages sp (pushToMemory (str ''user'') (JStr (sanitize msg)) m)]"
  using assms
  by (simp add: handleChatEarlier_def chatTryEarlier_valid Let_def split: sum.splits)

lemma handleChatEarlier_throws:
  assumes "optProp body (str ''message'') = JStr msg" "msg \<noteq> []"
    and "systemPromptOf (optProp body (str ''system'')) = Inr sp"
    and "provider (buildMessages sp (pushToMemory (str ''user'') (JStr (sanitize msg)) m)) = Inl e"
  shows "handleChatEarlier body provider m =
           \<lparr>response = \<lparr>status = 500, reply = JStr serverErrorReplyEarlier\<rparr>,
            memoryAfter = pushToMemory (str ''user'') (JStr (sanitize msg)) m,
            providerCalls = [buildMessages sp (pushToMemory (str ''user'') (JStr (sanitize msg)) m)]\<rparr>"
  using assms by (simp add: handleChatEarlier_def chatTryEarlier_valid Let_def)

lemma handleChatEarlier_returns:
  assumes "optProp body (str ''message'') = JStr msg" "msg \<noteq> []"
    and "systemPromptOf (optProp body (str ''system'')) = Inr sp"
    and "provider (buildMessages sp (pushToMemory (str ''user'') (JStr (sanitize msg)) m)) = Inr completion"
  shows "handleChatEarlier body provider m =
           \<lparr>response = \<lparr>status = 200, reply = extractReplyEarlier completion\<rparr>,
            memoryAfter = pushToMemory (str ''assistant'') (extractReplyEarlier completion)
              (pushToMemory (str ''user'') (JStr (sanitize msg)) m),
            providerCalls = [buildMessages sp (pushToMemory (str ''user'') (JStr (sanitize msg)) m)]\<rparr>"
  using assms by (simp add: handleChatEarlier_def chatTryEarlier_valid Let_def)

lemma buildMessages_valid:
  "sys = JUndefined \<or> isString sys \<Longrightarrow>
   buildMessages (case sys of JStr s \<Rightarrow> if s = [] then JNull else JStr (sanitize s) | _ \<Rightarrow> JNull) mem =
     (case sys of
        JStr s \<Rightarrow>
          if sanitize s \<noteq> [] then [\<lparr>role = str ''system'', content = JStr (sanitize s)\<rparr>]
          else []
      | _ \<Rightarrow> []) @ mem"
  by (cases sys) (auto simp: buildMessages_def sanitize_Nil)

section \<open>The buffer never holds more than six turns\<close>

text \<open>
  C1. Whatever calls of \<^verbatim>\<open>pushToMemory\<close> (or of \<^verbatim>\<open>pushMemory\<close>, its namesake in
  the earlier revision) are made from the empty buffer, the buffer holds at most 6 turns
  after each of them: \<open>take n calls\<close> is the sequence up to any call. A push on a buffer
  of at most 6 turns leaves at most 6 turns, and so does a whole request.
\<close>

theorem memory_never_exceeds_capacity:
  "length (pushAll (take n calls) []) \<le> 6 \<and>
   length (pushAllMemory (take n calls) []) \<le> 6 \<and>
   (length m \<le> 6 \<longrightarrow>
      length (pushToMemory r c m) \<le> 6 \<and> length (pushMemory r c m) \<le> 6 \<and>
      length (memoryAfter (handleChat body provider m)) \<le> 6 \<and>
      length (memoryAfter (handleChatEarlier body provider m)) \<le> 6)"
  by (simp add: pushAllMemory_eq pushAll_bound pushMemory_eq pushToMemory_bound
      handleChat_memory_bound handleChatEarlier_memory_bound)

theorem memory_never_exceeds_capacity_witness:
  "length (pushAll (take 8 (replicate 9 (str ''user'', JStr (str ''hi'')))) []) \<le> 6 \<and>
   length (replicate 6 \<lparr>role = str ''user'', content = JStr (str ''hi'')\<rparr>) \<le> 6 \<and>
   length (pushToMemory (str ''assistant'') (JStr (str ''yo''))
     (replicate 6 \<lparr>role = str ''user'', content = JStr (str ''hi'')\<rparr>)) \<le> 6"
  using memory_never_exceeds_capacity [of 8 "replicate 9 (str ''user'', JStr (str ''hi''))"
      "replicate 6 \<lparr>role = str ''user'', content = JStr (str ''hi'')\<rparr>"
      "str ''assistant''" "JStr (str ''yo'')"]
  by simp

section \<open>The buffer is a queue\<close>

text \<open>
  C2. On a buffer of at most 6 turns, \<^verbatim>\<open>pushToMemory\<close> puts the new turn at the back;
  a full buffer loses exactly its front element and stays at 6 turns. The result is a
  suffix of the old buffer followed by the new turn, so the turns kept are in the order
  they were pushed; after any sequence of calls from the empty buffer, the buffer is the
  last six turns pushed, oldest first.
\<close>

theorem push_evicts_oldest_first:
  "length m \<le> 6 \<Longrightarrow>
     pushToMemory r c m =
       (if length m < 6 then m @ [\<lparr>role = r, content = c\<rparr>]
        else tl m @ [\<lparr>role = r, content = c\<rparr>]) \<and>
     (length m = 6 \<longrightarrow> length (pushToMemory r c m) = 6) \<and>
     suffix (pushToMemory r c m) (m @ [\<lparr>role = r, content = c\<rparr>]) \<and>
     pushMemory r c m = pushToMemory r c m \<and>
     pushAll calls [] = drop (length calls - 6) (map mkTurn calls)"
proof (intro conjI)
  assume a: "length m \<le> 6"
  show "pushToMemory r c m =
           (if length m < 6 then m @ [\<lparr>role = r, content = c\<rparr>]
            else tl m @ [\<lparr>role = r, content = c\<rparr>])"
    using a by (rule pushToMemory_cases)
  then show "length m = 6 \<longrightarrow> length (pushToMemory r c m) = 6" by auto
  show "suffix (pushToMemory r c m) (m @ [\<lparr>role = r, content = c\<rparr>])"
    by (rule pushToMemory_suffix)
  show "pushMemory r c m = pushToMemory r c m" by (simp add: pushMemory_eq)
  show "pushAll calls [] = drop (length calls - 6) (map mkTurn calls)"
    using pushAll_last6_gen [of "[]" calls] by simp
qed

theorem push_evicts_oldest_first_witness:
  "length (map (\<lambda>s. \<lparr>role = str ''user'', content = JStr (str s)\<rparr>)
             [''a'', ''b'', ''c'', ''d'', ''e'', ''f'']) \<le> 6 \<and>
   pushToMemory (str ''assistant'') (JStr (str ''g''))
     (map (\<lambda>s. \<lparr>role = str ''user'', content = JStr (str s)\<rparr>)
        [''a'', ''b'', ''c'', ''d'', ''e'', ''f'']) =
     map (\<lambda>s. \<lparr>role = str ''user'', content = JStr (str s)\<rparr>) [''b'', ''c'', ''d'', ''e'', ''f'']
       @ [\<lparr>role = str ''assistant'', content = JStr (str ''g'')\<rparr>]"
proof -
  let ?six = "map (\<lambda>s. \<lparr>role = str ''user'', content = JStr (str s)\<rparr>)
                [''a'', ''b'', ''c'', ''d'', ''e'', ''f'']"
  have h: "length ?six \<le> 6" by simp
  show ?thesis
    using h push_evicts_oldest_first [OF h, of "str ''assistant''" "JStr (str ''g'')" "[]"]
    by simp
qed

section \<open>What the sanitizer computes\<close>

text \<open>
  C3, as stated, fails twice. Its second example is wrong: the sanitizer removes the
  angle brackets of \<^verbatim>\<open><b>hi</b>\<close> and nothing else, so the result is
  \<^verbatim>\<open>bhi/b\<close>, not \<^verbatim>\<open>hib\<close>. And not every script-tag block is removed: the
  \<^verbatim>\<open>.\<close> of the regular expression stops at a line terminator, so a block with a line
  feed between its tags is a script-tag block and is left in place, only its angle
  brackets deleted.
\<close>

theorem sanitize_counterexample:
  "sanitize (str ''<b>hi</b>'') = str ''bhi/b'' \<and> str ''bhi/b'' \<noteq> str ''hib'' \<and>
   isScriptBlock (str ''<script>'' @ [0x0A] @ str ''</script>'') \<and>
   sanitize (str ''<script>'' @ [0x0A] @ str ''</script>'') =
     str ''script'' @ [0x0A] @ str ''/script'' \<and>
   sanitize (str ''<script>'' @ [0x0A] @ str ''</script>'') \<noteq> []"
proof -
  have b: "sanitize (str ''<b>hi</b>'') = str ''bhi/b''" by code_simp
  have n: "str ''bhi/b'' \<noteq> str ''hib''" by (simp add: str_def)
  have d: "str ''<script>'' @ [0x0A] @ str ''</script>'' =
      str ''<script'' @ [] @ [0x3E] @ [0x0A] @ str ''</script>''"
    by (simp add: str_def)
  have "\<exists>opening attrs body closing.
      str ''<script'' @ [] @ [0x3E] @ [0x0A] @ str ''</script>'' =
        opening @ attrs @ [0x3E] @ body @ closing \<and>
      sameText opening (str ''<script'') \<and> sameText closing (str ''</script>'')"
    by (intro exI conjI) (rule refl, simp_all add: sameText_def)
  then have k: "isScriptBlock (str ''<script>'' @ [0x0A] @ str ''</script>'')"
    unfolding d isScriptBlock_def .
  have m: "sanitize (str ''<script>'' @ [0x0A] @ str ''</script>'') =
      str ''script'' @ [0x0A] @ str ''/script''" by code_simp
  have e: "str ''script'' @ [0x0A] @ str ''/script'' \<noteq> []" by (simp add: str_def)
  show ?thesis using b n k m e by simp
qed

text \<open>
  C3, amended. \<^verbatim>\<open>sanitize\<close> computes exactly: remove every substring matching a
  case-insensitive, non-greedy script-tag block that contains no line terminator, then
  delete all remaining \<^verbatim>\<open><\<close> and \<^verbatim>\<open>>\<close>, then trim leading and trailing
  whitespace. In particular \<^verbatim>\<open>sanitize("<script>alert(1)</script>hello")\<close> is
  \<^verbatim>\<open>hello\<close> and \<^verbatim>\<open>sanitize("<b>hi</b>")\<close> is \<^verbatim>\<open>bhi/b\<close>.
\<close>

theorem sanitize_computes:
  "sanitize t = trim (filter (\<lambda>c. c \<noteq> 0x3C \<and> c \<noteq> 0x3E) (removeOneLineScriptBlocks t)) \<and>
   sanitize (str ''<script>alert(1)</script>hello'') = str ''hello'' \<and>
   sanitize (str ''<b>hi</b>'') = str ''bhi/b''"
proof (intro conjI)
  show "sanitize t = trim (filter (\<lambda>c. c \<noteq> 0x3C \<and> c \<noteq> 0x3E) (removeOneLineScriptBlocks t))"
    by (simp add: sanitize_def replace_script replace_angle)
  show "sanitize (str ''<script>alert(1)</script>hello'') = str ''hello''" by code_simp
  show "sanitize (str ''<b>hi</b>'') = str ''bhi/b''" by code_simp
qed

theorem sanitize_computes_witness:
  "sanitize (str ''<SCRIPT src=x>a>b</script >c</Script> <i>ok</i> '') = str ''iok/i'' \<and>
   trim (filter (\<lambda>c. c \<noteq> 0x3C \<and> c \<noteq> 0x3E)
     (removeOneLineScriptBlocks (str ''<SCRIPT src=x>a>b</script >c</Script> <i>ok</i> ''))) =
     str ''iok/i''"
proof -
  have e: "sanitize (str ''<SCRIPT src=x>a>b</script >c</Script> <i>ok</i> '') = str ''iok/i''"
    by code_simp
  show ?thesis
    using e sanitize_computes [of "str ''<SCRIPT src=x>a>b</script >c</Script> <i>ok</i> ''"]
    by simp
qed

section \<open>A request without a usable message\<close>

text \<open>
  When the \<^verbatim>\<open>message\<close> of the request body is absent, is not a string, or is the
  empty string, the handler of \<^verbatim>\<open>server.js\<close> answers with status 400 and the
  invalid-request reply, does not call the provider, and leaves the buffer as it was, on
  every request body, a missing one included. The earlier revision does the same with its
  own reply text on every body it can destructure.
\<close>

lemma invalid_message_rejected:
  assumes "optProp body (str ''message'') = v"
    and "v = JUndefined \<or> \<not> isString v \<or> v = JStr []"
  shows "handleChat body provider m =
           \<lparr>response = \<lparr>status = 400, reply = JStr invalidRequestReply\<rparr>,
            memoryAfter = m, providerCalls = []\<rparr> \<and>
         (body \<noteq> JUndefined \<and> body \<noteq> JNull \<longrightarrow>
          handleChatEarlier body provider m =
           \<lparr>response = \<lparr>status = 400, reply = JStr invalidRequestReplyEarlier\<rparr>,
            memoryAfter = m, providerCalls = []\<rparr>)"
proof -
  have "\<not> truthy v \<or> \<not> isString v" using assms(2) by auto
  then show ?thesis using assms(1) handleChat_invalid handleChatEarlier_invalid by simp
qed

lemma invalid_message_rejected_example:
  "optProp (JObj [(str ''message'', JNum NonZero)]) (str ''message'') = JNum NonZero \<and>
   \<not> isString (JNum NonZero) \<and>
   handleChat (JObj [(str ''message'', JNum NonZero)]) (\<lambda>ms. Inl ProviderError) [] =
     \<lparr>response = \<lparr>status = 400, reply = JStr invalidRequestReply\<rparr>,
      memoryAfter = [], providerCalls = []\<rparr> \<and>
   handleChatEarlier (JObj [(str ''message'', JNum NonZero)]) (\<lambda>ms. Inl ProviderError) [] =
     \<lparr>response = \<lparr>status = 400, reply = JStr invalidRequestReplyEarlier\<rparr>,
      memoryAfter = [], providerCalls = []\<rparr>"
proof -
  have h1: "optProp (JObj [(str ''message'', JNum NonZero)]) (str ''message'') = JNum NonZero"
    by simp
  have h2: "JNum NonZero = JUndefined \<or> \<not> isString (JNum NonZero) \<or> JNum NonZero = JStr []"
    by simp
  show ?thesis
    using h1 invalid_message_rejected [OF h1 h2, of "\<lambda>ms. Inl ProviderError" "[]"] by simp
qed

text \<open>
  C4 says that every request whose \<^verbatim>\<open>message\<close> is absent, not a string or empty is
  answered with status 400, without a provider call and with the buffer unchanged. The
  handler of the earlier revision breaks this on a request without a body: it reads the
  fields with \<^verbatim>\<open>const { message, system } = req.body;\<close> inside the \<^verbatim>\<open>try\<close>
  block, the destructuring of \<^verbatim>\<open>undefined\<close> throws, and the \<^verbatim>\<open>catch\<close> answers
  with status 500. \<^verbatim>\<open>server.js\<close> reads \<^verbatim>\<open>req.body?.message\<close> and answers the
  same request with status 400. Neither calls the provider or touches the buffer.
\<close>

theorem missing_body_earlier_revision:
  "optProp JUndefined (str ''message'') = JUndefined \<and>
   handleChatEarlier JUndefined provider m =
     \<lparr>response = \<lparr>status = 500, reply = JStr serverErrorReplyEarlier\<rparr>,
      memoryAfter = m, providerCalls = []\<rparr> \<and>
   handleChat JUndefined provider m =
     \<lparr>response = \<lparr>status = 400, reply = JStr invalidRequestReply\<rparr>,
      memoryAfter = m, providerCalls = []\<rparr>"
  by (simp add: handleChatEarlier_def chatTryEarlier_def handleChat_def chatTry_def)

section \<open>A provider call that fails\<close>

text \<open>
  C5. For a request with a non-empty string \<^verbatim>\<open>message\<close> whose system prompt is
  sanitized without error (it is absent, falsy or a string), when the provider call
  throws or rejects, the handler answers with status 500 and the fixed server-error
  reply; the buffer is the buffer before the request with the sanitized user turn pushed,
  its last turn is that user turn, and no assistant turn is added. The earlier revision
  does the same with its own reply text.
\<close>

theorem provider_failure_keeps_user_turn:
  assumes "optProp body (str ''message'') = JStr msg" and "msg \<noteq> []"
    and "systemPromptOf (optProp body (str ''system'')) = Inr sp"
    and "provider (buildMessages sp (pushToMemory (str ''user'') (JStr (sanitize msg)) m)) = Inl e"
  shows "response (handleChat body provider m) = \<lparr>status = 500, reply = JStr serverErrorReply\<rparr> \<and>
         memoryAfter (handleChat body provider m) =
           pushToMemory (str ''user'') (JStr (sanitize msg)) m \<and>
         last (memoryAfter (handleChat body provider m)) =
           \<lparr>role = str ''user'', content = JStr (sanitize msg)\<rparr> \<and>
         response (handleChatEarlier body provider m) =
           \<lparr>status = 500, reply = JStr serverErrorReplyEarlier\<rparr> \<and>
         memoryAfter (handleChatEarlier body provider m) =
           pushToMemory (str ''user'') (JStr (sanitize msg)) m"
  using assms handleChat_throws [of body msg sp provider m e]
    handleChatEarlier_throws [of body msg sp provider m e]
  by (simp add: last_pushToMemory)

theorem provider_failure_keeps_user_turn_witness:
  "optProp (JObj [(str ''message'', JStr (str ''hi''))]) (str ''message'') = JStr (str ''hi'') \<and>
   str ''hi'' \<noteq> [] \<and>
   systemPromptOf (optProp (JObj [(str ''message'', JStr (str ''hi''))]) (str ''system'')) =
     Inr JNull \<and>
   response (handleChat (JObj [(str ''message'', JStr (str ''hi''))])
      (\<lambda>ms. Inl ProviderError) []) =
     \<lparr>status = 500, reply = JStr serverErrorReply\<rparr> \<and>
   memoryAfter (handleChat (JObj [(str ''message'', JStr (str ''hi''))])
      (\<lambda>ms. Inl ProviderError) []) =
     [\<lparr>role = str ''user'', content = JStr (str ''hi'')\<rparr>]"
proof -
  let ?body = "JObj [(str ''message'', JStr (str ''hi''))]"
  have h1: "optProp ?body (str ''message'') = JStr (str ''hi'')" by simp
  have h2: "str ''hi'' \<noteq> []" by (simp add: str_def)
  have h3: "systemPromptOf (optProp ?body (str ''system'')) = Inr JNull"
    by (simp add: systemPromptOf_def str_def)
  have h4: "(\<lambda>ms. Inl ProviderError)
      (buildMessages JNull (pushToMemory (str ''user'') (JStr (sanitize (str ''hi''))) [])) =
      Inl ProviderError" by simp
  have s: "sanitize (str ''hi'') = str ''hi''" by code_simp
  have p: "pushToMemory (str ''user'') (JStr (str ''hi'')) [] =
      [\<lparr>role = str ''user'', content = JStr (str ''hi'')\<rparr>]"
    by (simp add: pushToMemory_def MAX_MEMORY_MESSAGES_def)
  show ?thesis
    using h1 h2 h3
      provider_failure_keeps_user_turn [of ?body "str ''hi''" JNull
        "\<lambda>ms. Inl ProviderError" "[]" ProviderError, OF h1 h2 h3 h4]
    by (simp only: s p simp_thms)
qed

section \<open>The message list sent to the provider\<close>

text \<open>
  C6, as stated, fails: a system prompt that is supplied but sanitizes to the empty
  string (here \<^verbatim>\<open><>\<close>) gives no system entry, because the handler tests
  \<^verbatim>\<open>if (systemPrompt)\<close> on the sanitized text.
\<close>

theorem system_entry_counterexample:
  "providerCalls (handleChat
      (JObj [(str ''message'', JStr (str ''hi'')), (str ''system'', JStr (str ''<>''))])
      (\<lambda>ms. Inl ProviderError) []) =
     [[\<lparr>role = str ''user'', content = JStr (str ''hi'')\<rparr>]] \<and>
   [\<lparr>role = str ''user'', content = JStr (str ''hi'')\<rparr>] \<noteq>
     \<lparr>role = str ''system'', content = JStr (sanitize (str ''<>''))\<rparr> #
       pushToMemory (str ''user'') (JStr (sanitize (str ''hi''))) []"
proof -
  let ?body = "JObj [(str ''message'', JStr (str ''hi'')), (str ''system'', JStr (str ''<>''))]"
  have h1: "optProp ?body (str ''message'') = JStr (str ''hi'')" by simp
  have h2: "str ''hi'' \<noteq> []" by (simp add: str_def)
  have ne: "str ''system'' \<noteq> str ''message''" by (simp add: str_def)
  have s1: "sanitize (str ''<>'') = []" by code_simp
  have s2: "sanitize (str ''hi'') = str ''hi''" by code_simp
  have h3: "systemPromptOf (optProp ?body (str ''system'')) = Inr (JStr [])"
    using ne by (simp add: systemPromptOf_def s1) (simp add: str_def)
  have p: "pushToMemory (str ''user'') (JStr (str ''hi'')) [] =
      [\<lparr>role = str ''user'', content = JStr (str ''hi'')\<rparr>]"
    by (simp add: pushToMemory_def MAX_MEMORY_MESSAGES_def)
  show ?thesis
    using handleChat_valid [OF h1 h2 h3, of "\<lambda>ms. Inl ProviderError" "[]"]
    by (simp add: s2 p buildMessages_def)
qed

text \<open>
  C6, amended. For a request with a non-empty string \<^verbatim>\<open>message\<close> and a
  \<^verbatim>\<open>system\<close> that is absent or a string, the message list sent to the provider is
  the entry with role \<^verbatim>\<open>system\<close> and the sanitized prompt as content, when a
  system prompt was supplied and its sanitized form is not empty, followed by the whole
  buffer, which already holds the sanitized user turn; otherwise it is the buffer alone.
  The earlier revision sends the same list.
\<close>

theorem outbound_messages:
  assumes "optProp body (str ''message'') = JStr msg" and "msg \<noteq> []"
    and "optProp body (str ''system'') = sys" and "sys = JUndefined \<or> isString sys"
  shows "providerCalls (handleChat body provider m) =
           [(case sys of
               JStr s \<Rightarrow>
                 if sanitize s \<noteq> [] then [\<lparr>role = str ''system'', content = JStr (sanitize s)\<rparr>]
                 else []
             | _ \<Rightarrow> []) @
            pushToMemory (str ''user'') (JStr (sanitize msg)) m] \<and>
         providerCalls (handleChatEarlier body provider m) =
           providerCalls (handleChat body provider m)"
proof -
  let ?sp = "case sys of JStr s \<Rightarrow> if s = [] then JNull else JStr (sanitize s) | _ \<Rightarrow> JNull"
  have sp: "systemPromptOf (optProp body (str ''system'')) = Inr ?sp"
    using assms(3,4) systemPromptOf_valid by simp
  show ?thesis
    using handleChat_valid [OF assms(1,2) sp] handleChatEarlier_valid [OF assms(1,2) sp]
      buildMessages_valid [OF assms(4)]
    by simp
qed

theorem outbound_messages_witness:
  "optProp (JObj [(str ''message'', JStr (str ''hi'')), (str ''system'', JStr (str ''be brief''))])
     (str ''message'') = JStr (str ''hi'') \<and>
   str ''hi'' \<noteq> [] \<and>
   optProp (JObj [(str ''message'', JStr (str ''hi'')), (str ''system'', JStr (str ''be brief''))])
     (str ''system'') = JStr (str ''be brief'') \<and>
   isString (JStr (str ''be brief'')) \<and>
   providerCalls (handleChat
      (JObj [(str ''message'', JStr (str ''hi'')), (str ''system'', JStr (str ''be brief''))])
      (\<lambda>ms. Inl ProviderError) []) =
     [[\<lparr>role = str ''system'', content = JStr (str ''be brief'')\<rparr>,
       \<lparr>role = str ''user'', content = JStr (str ''hi'')\<rparr>]]"
proof -
  let ?body = "JObj [(str ''message'', JStr (str ''hi'')), (str ''system'', JStr (str ''be brief''))]"
  have h1: "optProp ?body (str ''message'') = JStr (str ''hi'')" by simp
  have h2: "str ''hi'' \<noteq> []" by (simp add: str_def)
  have ne: "str ''system'' \<noteq> str ''message''" by (simp add: str_def)
  have h3: "optProp ?body (str ''system'') = JStr (str ''be brief'')" using ne by simp
  have h4: "JStr (str ''be brief'') = JUndefined \<or> isString (JStr (str ''be brief''))" by simp
  have s1: "sanitize (str ''be brief'') = str ''be brief''" by code_simp
  have s2: "sanitize (str ''hi'') = str ''hi''" by code_simp
  have n: "str ''be brief'' \<noteq> []" by (simp add: str_def)
  have p: "pushToMemory (str ''user'') (JStr (str ''hi'')) [] =
      [\<lparr>role = str ''user'', content = JStr (str ''hi'')\<rparr>]"
    by (simp add: pushToMemory_def MAX_MEMORY_MESSAGES_def)
  show ?thesis
    using h1 h2 h3 n outbound_messages [OF h1 h2 h3 h4, of "\<lambda>ms. Inl ProviderError" "[]"]
    by (simp add: s1 s2 p)
qed

section \<open>A system prompt that sanitizes to nothing\<close>

text \<open>
  C10. When the supplied system prompt is a string whose sanitized form is empty, the
  handler treats it as absent: the message list sent to the provider is the buffer alone,
  with no system entry.
\<close>

theorem empty_system_prompt_is_absent:
  assumes "optProp body (str ''message'') = JStr msg" and "msg \<noteq> []"
    and "optProp body (str ''system'') = JStr s" and "sanitize s = []"
  shows "providerCalls (handleChat body provider m) =
           [pushToMemory (str ''user'') (JStr (sanitize msg)) m] \<and>
         providerCalls (handleChatEarlier body provider m) =
           [pushToMemory (str ''user'') (JStr (sanitize msg)) m]"
proof -
  have "systemPromptOf (optProp body (str ''system'')) =
          Inr (if s = [] then JNull else JStr [])"
    using assms(3,4) by (simp add: systemPromptOf_def)
  from handleChat_valid [OF assms(1,2) this] handleChatEarlier_valid [OF assms(1,2) this]
  show ?thesis
    by (simp add: buildMessages_def)
qed

theorem empty_system_prompt_is_absent_witness:
  "optProp (JObj [(str ''message'', JStr (str ''hi'')), (str ''system'', JStr (str ''< > ''))])
     (str ''message'') = JStr (str ''hi'') \<and>
   str ''hi'' \<noteq> [] \<and>
   optProp (JObj [(str ''message'', JStr (str ''hi'')), (str ''system'', JStr (str ''< > ''))])
     (str ''system'') = JStr (str ''< > '') \<and>
   sanitize (str ''< > '') = [] \<and>
   providerCalls (handleChat
      (JObj [(str ''message'', JStr (str ''hi'')), (str ''system'', JStr (str ''< > ''))])
      (\<lambda>ms. Inl ProviderError) []) =
     [[\<lparr>role = str ''user'', content = JStr (str ''hi'')\<rparr>]]"
proof -
  let ?body = "JObj [(str ''message'', JStr (str ''hi'')), (str ''system'', JStr (str ''< > ''))]"
  have h1: "optProp ?body (str ''message'') = JStr (str ''hi'')" by simp
  have h2: "str ''hi'' \<noteq> []" by (simp add: str_def)
  have ne: "str ''system'' \<noteq> str ''message''" by (simp add: str_def)
  have h3: "optProp ?body (str ''system'') = JStr (str ''< > '')" using ne by simp
  have h4: "sanitize (str ''< > '') = []" by code_simp
  have s2: "sanitize (str ''hi'') = str ''hi''" by code_simp
  have p: "pushToMemory (str ''user'') (JStr (str ''hi'')) [] =
      [\<lparr>role = str ''user'', content = JStr (str ''hi'')\<rparr>]"
    by (simp add: pushToMemory_def MAX_MEMORY_MESSAGES_def)
  show ?thesis
    using h1 h2 h3 h4
      empty_system_prompt_is_absent [OF h1 h2 h3 h4, of "\<lambda>ms. Inl ProviderError" "[]"]
    by (simp add: s2 p)
qed

section \<open>The reply taken from the completion\<close>

text \<open>
  C8, as stated, fails: a completion whose first choice has the content \<^verbatim>\<open>""\<close>
  has a content, yet the reply is the fallback text, because the handler takes the
  content with \<^verbatim>\<open>||\<close>.
\<close>

theorem empty_content_counterexample:
  "firstChoiceContent
     (JObj [(str ''choices'', JArr [JObj [(str ''message'', JObj [(str ''content'', JStr [])])]])]) =
     JStr [] \<and>
   extractReply
     (JObj [(str ''choices'', JArr [JObj [(str ''message'', JObj [(str ''content'', JStr [])])]])]) =
     JStr emptyResponseReply \<and>
   JStr emptyResponseReply \<noteq> JStr []"
  by (simp add: firstChoiceContent_def extractReply_def emptyResponseReply_def str_def)

text \<open>
  C8, amended. The reply taken from a completion is the content of the first choice's
  message when that content is truthy, and the fixed fallback text when it is absent or
  falsy. The fallback text passes the structure enforcer unchanged, is pushed as the
  assistant turn and is returned with status 200; a non-empty string content is pushed
  and returned as the enforcer leaves it. The earlier revision pushes and returns the
  content, or its own fallback text, as it is.
\<close>

theorem reply_extraction:
  assumes "optProp body (str ''message'') = JStr msg" and "msg \<noteq> []"
    and "systemPromptOf (optProp body (str ''system'')) = Inr sp"
    and "provider (buildMessages sp (pushToMemory (str ''user'') (JStr (sanitize msg)) m)) =
           Inr completion"
  shows "extractReply completion =
           (if truthy (firstChoiceContent completion) then firstChoiceContent completion
            else JStr emptyResponseReply) \<and>
         (\<not> truthy (firstChoiceContent completion) \<longrightarrow>
            response (handleChat body provider m) =
              \<lparr>status = 200, reply = JStr emptyResponseReply\<rparr> \<and>
            memoryAfter (handleChat body provider m) =
              pushToMemory (str ''assistant'') (JStr emptyResponseReply)
                (pushToMemory (str ''user'') (JStr (sanitize msg)) m)) \<and>
         (\<forall>s. firstChoiceContent completion = JStr s \<and> s \<noteq> [] \<longrightarrow>
            response (handleChat body provider m) =
              \<lparr>status = 200, reply = JStr (enforceMarkdownStructure s)\<rparr> \<and>
            memoryAfter (handleChat body provider m) =
              pushToMemory (str ''assistant'') (JStr (enforceMarkdownStructure s))
                (pushToMemory (str ''user'') (JStr (sanitize msg)) m)) \<and>
         response (handleChatEarlier body provider m) =
           \<lparr>status = 200,
            reply = (if truthy (firstChoiceContent completion) then firstChoiceContent completion
                     else JStr failedReplyEarlier)\<rparr> \<and>
         memoryAfter (handleChatEarlier body provider m) =
           pushToMemory (str ''assistant'')
             (if truthy (firstChoiceContent completion) then firstChoiceContent completion
              else JStr failedReplyEarlier)
             (pushToMemory (str ''user'') (JStr (sanitize msg)) m)"
proof (intro conjI impI allI)
  show "extractReply completion =
           (if truthy (firstChoiceContent completion) then firstChoiceContent completion
            else JStr emptyResponseReply)"
    by (simp add: extractReply_def Let_def)
next
  assume f: "\<not> truthy (firstChoiceContent completion)"
  then have "enforceValue (extractReply completion) = Inr (JStr emptyResponseReply)"
    by (simp add: extractReply_def Let_def enforce_fallback)
  from handleChat_returns [of body msg sp provider m completion, OF assms this]
  show "response (handleChat body provider m) = \<lparr>status = 200, reply = JStr emptyResponseReply\<rparr>"
    and "memoryAfter (handleChat body provider m) =
              pushToMemory (str ''assistant'') (JStr emptyResponseReply)
                (pushToMemory (str ''user'') (JStr (sanitize msg)) m)"
    by simp_all
next
  fix s
  assume c: "firstChoiceContent completion = JStr s \<and> s \<noteq> []"
  then have "enforceValue (extractReply completion) = Inr (JStr (enforceMarkdownStructure s))"
    by (simp add: extractReply_def Let_def enforceValue_def)
  from handleChat_returns [of body msg sp provider m completion, OF assms this]
  show "response (handleChat body provider m) =
              \<lparr>status = 200, reply = JStr (enforceMarkdownStructure s)\<rparr>"
    and "memoryAfter (handleChat body provider m) =
              pushToMemory (str ''assistant'') (JStr (enforceMarkdownStructure s))
                (pushToMemory (str ''user'') (JStr (sanitize msg)) m)"
    by simp_all
next
  from handleChatEarlier_returns [of body msg sp provider m completion, OF assms]
  show "response (handleChatEarlier body provider m) =
           \<lparr>status = 200,
            reply = (if truthy (firstChoiceContent completion) then firstChoiceContent completion
                     else JStr failedReplyEarlier)\<rparr>"
    and "memoryAfter (handleChatEarlier body provider m) =
           pushToMemory (str ''assistant'')
             (if truthy (firstChoiceContent completion) then firstChoiceContent completion
              else JStr failedReplyEarlier)
             (pushToMemory (str ''user'') (JStr (sanitize msg)) m)"
    by (simp_all add: extractReplyEarlier_def Let_def)
qed

theorem reply_extraction_witness:
  "optProp (JObj [(str ''message'', JStr (str ''hi''))]) (str ''message'') = JStr (str ''hi'') \<and>
   str ''hi'' \<noteq> [] \<and>
   systemPromptOf (optProp (JObj [(str ''message'', JStr (str ''hi''))]) (str ''system'')) =
     Inr JNull \<and>
   \<not> truthy (firstChoiceContent (JObj [(str ''choices'', JArr [])])) \<and>
   response (handleChat (JObj [(str ''message'', JStr (str ''hi''))])
      (\<lambda>ms. Inr (JObj [(str ''choices'', JArr [])])) []) =
     \<lparr>status = 200, reply = JStr emptyResponseReply\<rparr> \<and>
   memoryAfter (handleChat (JObj [(str ''message'', JStr (str ''hi''))])
      (\<lambda>ms. Inr (JObj [(str ''choices'', JArr [])])) []) =
     [\<lparr>role = str ''user'', content = JStr (str ''hi'')\<rparr>,
      \<lparr>role = str ''assistant'', content = JStr emptyResponseReply\<rparr>]"
proof -
  let ?body = "JObj [(str ''message'', JStr (str ''hi''))]"
  let ?c = "JObj [(str ''choices'', JArr [])]"
  have h1: "optProp ?body (str ''message'') = JStr (str ''hi'')" by simp
  have h2: "str ''hi'' \<noteq> []" by (simp add: str_def)
  have h3: "systemPromptOf (optProp ?body (str ''system'')) = Inr JNull"
    by (simp add: systemPromptOf_def str_def)
  have h4: "(\<lambda>ms. Inr ?c)
      (buildMessages JNull (pushToMemory (str ''user'') (JStr (sanitize (str ''hi''))) [])) =
      Inr ?c" by simp
  have f: "\<not> truthy (firstChoiceContent ?c)" by (simp add: firstChoiceContent_def)
  have s: "sanitize (str ''hi'') = str ''hi''" by code_simp
  have p: "pushToMemory (str ''assistant'') (JStr emptyResponseReply)
             (pushToMemory (str ''user'') (JStr (str ''hi'')) []) =
      [\<lparr>role = str ''user'', content = JStr (str ''hi'')\<rparr>,
       \<lparr>role = str ''assistant'', content = JStr emptyResponseReply\<rparr>]"
    by (simp add: pushToMemory_def MAX_MEMORY_MESSAGES_def)
  show ?thesis
    using h1 h2 h3 f
      reply_extraction [of ?body "str ''hi''" JNull "\<lambda>ms. Inr ?c" "[]" ?c, OF h1 h2 h3 h4]
    by (simp only: s p simp_thms)
qed

section \<open>What the enforcer returns\<close>

text \<open>
  C7, as stated, fails at the empty string: it contains no marker, and the result is the
  empty string, which does not start with the heading. The enforcer returns
  \<^verbatim>\<open>""\<close> for a falsy text before it looks for markers.
\<close>

theorem enforce_empty_counterexample:
  "enforceMarkdownStructure [] = [] \<and>
   \<not> includesStr [] (str ''##'') \<and> \<not> includesStr [] (str ''- '') \<and>
   \<not> includesStr [] (str ''**'') \<and>
   \<not> prefix heading (enforceMarkdownStructure [])"
  by (simp add: enforceMarkdownStructure_def heading_def str_def)

text \<open>
  C7, amended. For every non-empty string \<open>t\<close>: if \<open>t\<close> contains one of the markers
  \<^verbatim>\<open>##\<close>, \<^verbatim>\<open>- \<close> (hyphen, space) or \<^verbatim>\<open>**\<close>, the enforcer returns \<open>t\<close>; otherwise
  the result is the fixed heading line followed by one bullet line (hyphen, space, the
  trimmed fragment, line feed) for each non-empty fragment obtained by splitting \<open>t\<close> on
  \<^verbatim>\<open>.\<close>, \<^verbatim>\<open>?\<close> or \<^verbatim>\<open>!\<close> followed by whitespace. A text containing
  \<^verbatim>\<open>**bold**\<close> is returned unchanged, \<^verbatim>\<open>A. B. C.\<close> becomes the heading and the
  bullets of \<^verbatim>\<open>A\<close>, \<^verbatim>\<open>B\<close> and \<^verbatim>\<open>C.\<close>, and the empty string is mapped to
  the empty string.
\<close>

theorem enforce_structure:
  "t \<noteq> [] \<Longrightarrow>
     (includesStr t (str ''##'') \<or> includesStr t (str ''- '') \<or> includesStr t (str ''**'')
        \<longrightarrow> enforceMarkdownStructure t = t) \<and>
     (\<not> (includesStr t (str ''##'') \<or> includesStr t (str ''- '') \<or> includesStr t (str ''**''))
        \<longrightarrow> enforceMarkdownStructure t =
              heading @ concat (map bullet (filter (\<lambda>line. line \<noteq> []) (fragments [] t)))) \<and>
     enforceMarkdownStructure (x @ str ''**bold**'' @ y) = x @ str ''**bold**'' @ y \<and>
     enforceMarkdownStructure (str ''A. B. C.'') =
       heading @ bullet (str ''A'') @ bullet (str ''B'') @ bullet (str ''C.'') \<and>
     enforceMarkdownStructure [] = []"
proof (intro conjI impI)
  assume "includesStr t (str ''##'') \<or> includesStr t (str ''- '') \<or> includesStr t (str ''**'')"
  then show "enforceMarkdownStructure t = t" by (rule enforce_structured)
next
  assume ne: "t \<noteq> []"
    and "\<not> (includesStr t (str ''##'') \<or> includesStr t (str ''- '') \<or> includesStr t (str ''**''))"
  then show "enforceMarkdownStructure t =
      heading @ concat (map bullet (filter (\<lambda>line. line \<noteq> []) (fragments [] t)))"
    by (simp add: enforce_unstructured splitRe_fragments)
next
  have "includesStr (x @ str ''**'' @ (str ''bold**'' @ y)) (str ''**'')"
    by (rule includesStr_mid)
  then have "includesStr (x @ str ''**bold**'' @ y) (str ''**'')"
    by (simp add: bold_marker)
  then show "enforceMarkdownStructure (x @ str ''**bold**'' @ y) = x @ str ''**bold**'' @ y"
    by (simp add: enforce_structured)
next
  show "enforceMarkdownStructure (str ''A. B. C.'') =
       heading @ bullet (str ''A'') @ bullet (str ''B'') @ bullet (str ''C.'')"
    by code_simp
next
  show "enforceMarkdownStructure [] = []" by (simp add: enforceMarkdownStructure_def)
qed

theorem enforce_structure_witness:
  "str ''Hi there! How are you? Fine.'' \<noteq> [] \<and>
   \<not> (includesStr (str ''Hi there! How are you? Fine.'') (str ''##'') \<or>
      includesStr (str ''Hi there! How are you? Fine.'') (str ''- '') \<or>
      includesStr (str ''Hi there! How are you? Fine.'') (str ''**'')) \<and>
   fragments [] (str ''Hi there! How are you? Fine.'') =
     [str ''Hi there'', str ''How are you'', str ''Fine.''] \<and>
   enforceMarkdownStructure (str ''Hi there! How are you? Fine.'') =
     heading @ bullet (str ''Hi there'') @ bullet (str ''How are you'') @ bullet (str ''Fine.'')"
proof -
  let ?t = "str ''Hi there! How are you? Fine.''"
  have h: "?t \<noteq> []" by (simp add: str_def)
  have n: "\<not> (includesStr ?t (str ''##'') \<or> includesStr ?t (str ''- '') \<or>
      includesStr ?t (str ''**''))" by code_simp
  have f: "fragments [] ?t = [str ''Hi there'', str ''How are you'', str ''Fine.'']"
    by code_simp
  have ne: "str ''Hi there'' \<noteq> [] \<and> str ''How are you'' \<noteq> [] \<and> str ''Fine.'' \<noteq> []"
    by (simp add: str_def)
  show ?thesis
    using h n f ne enforce_structure [OF h, of "[]" "[]"]
    by simp
qed

section \<open>The enforcer applied twice\<close>

text \<open>
  C9. \<^verbatim>\<open>enforceMarkdownStructure\<close> is idempotent on strings: the restructured output
  begins with the marker \<^verbatim>\<open>##\<close> and is returned as it is by a second pass, and the
  empty string is mapped to itself.
\<close>

theorem enforceMarkdownStructure_idempotent:
  "enforceMarkdownStructure (enforceMarkdownStructure t) = enforceMarkdownStructure t \<and>
   enforceMarkdownStructure [] = []"
  by (simp add: enforce_idem) (simp add: enforceMarkdownStructure_def)

end
